theory Spec2Isabelle
  imports Complex_Main "HOL-Library.AList"
begin

section \<open>Data model\<close>

text \<open>
  The program is the Pygame front end \<^verbatim>\<open>pathfinder.py\<close>: the class
  \<^verbatim>\<open>PathfinderApp\<close> with its session state, the operations
  \<^verbatim>\<open>start_algorithm\<close>, \<^verbatim>\<open>step\<close>, \<^verbatim>\<open>reset\<close>, and the event loop
  \<^verbatim>\<open>run\<close>. The module \<^verbatim>\<open>pathfinder_part1\<close> that it imports (the class
  \<^verbatim>\<open>Grid\<close>, the table \<^verbatim>\<open>ALGORITHMS\<close>, the cell constants and
  \<^verbatim>\<open>ROWS\<close>, \<^verbatim>\<open>COLS\<close>) is not part of the sources; what the front end
  uses of it is modelled below or taken as a parameter.
\<close>

text \<open>Exceptions that the modelled code can raise, as values.\<close>

datatype error = IndexError | KeyError | ZeroDivisionError | SystemExit

type_synonym coord = "int \<times> int"

text \<open>
  Modelled from the spec: the cell constants \<^verbatim>\<open>EMPTY\<close>, \<^verbatim>\<open>WALL\<close>,
  \<^verbatim>\<open>START\<close>, \<^verbatim>\<open>TARGET\<close> of \<^verbatim>\<open>pathfinder_part1\<close>, four distinct cell
  states.
\<close>

datatype cell = EMPTY | WALL | START | TARGET

text \<open>
  Modelled from the spec: the class \<^verbatim>\<open>Grid\<close> of \<^verbatim>\<open>pathfinder_part1\<close>, as far
  as the front end reads it: the cell matrix (the attribute \<^verbatim>\<open>grid\<close>, here
  \<open>cells\<close>, a list of rows) and the coordinates \<^verbatim>\<open>start\<close> and \<^verbatim>\<open>target\<close>.
\<close>

record Grid =
  cells :: "cell list list"
  start :: coord
  target :: coord

text \<open>
  Python list indexing: a negative index counts from the end, an index out of range
  raises \<^verbatim>\<open>IndexError\<close>.
\<close>

definition py_index :: "'a list \<Rightarrow> int \<Rightarrow> error + 'a" where
  "py_index xs i =
     (if 0 \<le> i \<and> i < int (length xs) then Inr (xs ! nat i)
      else if i < 0 \<and> - int (length xs) \<le> i then Inr (xs ! nat (int (length xs) + i))
      else Inl IndexError)"

text \<open>The read \<^verbatim>\<open>self.grid.grid[r][c]\<close>.\<close>

definition cell_at :: "Grid \<Rightarrow> coord \<Rightarrow> error + cell" where
  "cell_at g pos =
     (case py_index (cells g) (fst pos) of
        Inl e \<Rightarrow> Inl e
      | Inr row \<Rightarrow> py_index row (snd pos))"

text \<open>
  The per-step dictionary that a search generator yields, with its keys
  \<^verbatim>\<open>frontier\<close>, \<^verbatim>\<open>explored\<close>, \<^verbatim>\<open>path\<close>, \<^verbatim>\<open>found\<close>, \<^verbatim>\<open>failed\<close>,
  \<^verbatim>\<open>message\<close>.
\<close>

record snapshot =
  snap_frontier :: "coord set"
  snap_explored :: "coord set"
  snap_path :: "coord list"
  snap_found :: bool
  snap_failed :: bool
  snap_message :: string

text \<open>
  A search generator. \<^verbatim>\<open>next(gen)\<close> runs the generator against the live grid (which
  it holds by reference and may change) and either yields a snapshot, the generator
  then being in its next state, or raises \<^verbatim>\<open>StopIteration\<close> (the result
  \<open>None\<close>). The bodies of the generators are in \<^verbatim>\<open>pathfinder_part1\<close>; here a
  generator is any such function.
\<close>

datatype gen = Gen (gnext: "Grid \<Rightarrow> Grid \<times> (snapshot \<times> gen) option")

text \<open>
  A generator that has finished: every further \<^verbatim>\<open>next\<close> raises
  \<^verbatim>\<open>StopIteration\<close> and runs no code.
\<close>

definition exhausted :: gen where
  "exhausted = Gen (\<lambda>g. (g, None))"

text \<open>
  The table \<^verbatim>\<open>ALGORITHMS\<close>: a dictionary from names to generator functions, in
  insertion order. Calling a generator function runs none of its body, so it neither
  raises nor touches the grid.
\<close>

type_synonym algorithms = "(string \<times> (Grid \<Rightarrow> gen)) list"

text \<open>The class \<^verbatim>\<open>Button\<close>: its rectangle (x, y, width, height), label and flag.\<close>

record Button =
  rect :: "int \<times> int \<times> int \<times> int"
  label :: string
  active :: bool

text \<open>
  The fields of \<^verbatim>\<open>PathfinderApp\<close>. The Pygame handles (screen, fonts, clock) carry
  no state of the search and are left out. \<open>dragging_wall\<close> is the local variable of
  \<^verbatim>\<open>run\<close> that lives across iterations of the event loop. \<open>rng_pos\<close> is the state
  of the random number generator behind \<^verbatim>\<open>Grid.reset\<close>: the number of layouts drawn
  so far from the sequence of layouts it produces.
\<close>

record app =
  grid :: Grid
  generator :: "gen option"
  frontier :: "coord set"
  explored :: "coord set"
  path :: "coord list"
  found :: bool
  failed :: bool
  running :: bool
  message :: string
  algo_name :: string
  dynamic_walls :: "coord set"
  speed :: int
  last_t :: real
  step_mode :: bool
  replan_count :: int
  algo_buttons :: "(string \<times> Button) list"
  btn_reset :: Button
  btn_speed_up :: Button
  btn_speed_dn :: Button
  btn_step :: Button
  btn_next :: Button
  dragging_wall :: bool
  rng_pos :: nat

section \<open>Strings\<close>

text \<open>
  Strings are byte lists; the two characters of the source outside ASCII are written in
  UTF-8: the warning sign U+26A0 and the ellipsis U+2026.
\<close>

definition warning_sign :: string where
  "warning_sign = [CHR 0xE2, CHR 0x9A, CHR 0xA0]"

definition ellipsis :: string where
  "ellipsis = [CHR 0xE2, CHR 0x80, CHR 0xA6]"

text \<open>\<^verbatim>\<open>str(n)\<close> of a Python integer, in decimal.\<close>

fun str_nat :: "nat \<Rightarrow> string" where
  "str_nat n =
     (if n < 10 then [''0123456789'' ! n]
      else str_nat (n div 10) @ [''0123456789'' ! (n mod 10)])"

declare str_nat.simps [simp del]

definition str_int :: "int \<Rightarrow> string" where
  "str_int i = (if i < 0 then ''-'' @ str_nat (nat (- i)) else str_nat (nat i))"

section \<open>Operations of the application\<close>

text \<open>\<^verbatim>\<open>for btn in self.algo_buttons.values(): btn.active = False\<close>\<close>

definition deactivate_all :: "(string \<times> Button) list \<Rightarrow> (string \<times> Button) list" where
  "deactivate_all bs = map (\<lambda>(n, b). (n, b\<lparr>active := False\<rparr>)) bs"

text \<open>
  \<^verbatim>\<open>start_algorithm(name)\<close>. The clock reading \<^verbatim>\<open>time.time()\<close> is the argument
  \<open>now\<close>. Both dictionary reads raise \<^verbatim>\<open>KeyError\<close> on a name that is not a key;
  the fields assigned before the raise are lost with the result.
\<close>

definition start_algorithm :: "algorithms \<Rightarrow> real \<Rightarrow> string \<Rightarrow> app \<Rightarrow> error + app" where
  "start_algorithm ALGORITHMS now name st =
     (let st1 = st\<lparr>frontier := {}, explored := {}, path := [], found := False,
                    failed := False, dynamic_walls := {}, replan_count := 0,
                    algo_name := name,
                    message := ''Running '' @ name @ ellipsis\<rparr>;
          bs = deactivate_all (algo_buttons st1)
      in case map_of bs name of
           None \<Rightarrow> Inl KeyError
         | Some b \<Rightarrow>
             (let st2 = st1\<lparr>algo_buttons := AList.update name (b\<lparr>active := True\<rparr>) bs\<rparr>
              in case map_of ALGORITHMS name of
                   None \<Rightarrow> Inl KeyError
                 | Some algo_fn \<Rightarrow>
                     Inr (st2\<lparr>generator := Some (algo_fn (grid st2)),
                              running := True, last_t := now\<rparr>)))"

text \<open>\<^verbatim>\<open>range(n)\<close> for a Python integer \<open>n\<close>.\<close>

definition py_range :: "int \<Rightarrow> int list" where
  "py_range n = map int [0..<nat n]"

text \<open>
  The loop of \<^verbatim>\<open>step\<close> headed ``record any new dynamic walls'': it reads every cell
  \<^verbatim>\<open>self.grid.grid[r][c]\<close> for \<open>r\<close> in \<^verbatim>\<open>range(ROWS)\<close> and \<open>c\<close> in
  \<^verbatim>\<open>range(COLS)\<close>, and its body is \<^verbatim>\<open>pass\<close>. It assigns nothing; it raises
  \<^verbatim>\<open>IndexError\<close> when the matrix is smaller than \<open>ROWS \<times> COLS\<close>.
\<close>

fun record_row :: "Grid \<Rightarrow> coord set \<Rightarrow> int \<Rightarrow> int list \<Rightarrow> error + unit" where
  "record_row g dyn r [] = Inr ()"
| "record_row g dyn r (c # cs) =
     (case cell_at g (r, c) of
        Inl e \<Rightarrow> Inl e
      | Inr v \<Rightarrow>
          (if v = WALL \<and> (r, c) \<notin> dyn \<and> (r, c) \<noteq> start g \<and> (r, c) \<noteq> target g
           then record_row g dyn r cs
           else record_row g dyn r cs))"

fun record_rows :: "Grid \<Rightarrow> coord set \<Rightarrow> int list \<Rightarrow> int list \<Rightarrow> error + unit" where
  "record_rows g dyn [] cs = Inr ()"
| "record_rows g dyn (r # rs) cs =
     (case record_row g dyn r cs of
        Inl e \<Rightarrow> Inl e
      | Inr u \<Rightarrow> record_rows g dyn rs cs)"

definition record_walls :: "int \<Rightarrow> int \<Rightarrow> app \<Rightarrow> error + app" where
  "record_walls ROWS COLS st =
     (case record_rows (grid st) (dynamic_walls st) (py_range ROWS) (py_range COLS) of
        Inl e \<Rightarrow> Inl e
      | Inr u \<Rightarrow> Inr st)"

text \<open>
  The scan \<^verbatim>\<open>for pos in self.path\<close> of \<^verbatim>\<open>step\<close>: at the first position whose cell
  is a wall it re-plans and breaks; a position out of range raises \<^verbatim>\<open>IndexError\<close>.
\<close>

definition replan :: "algorithms \<Rightarrow> app \<Rightarrow> error + app" where
  "replan ALGORITHMS st =
     (let st1 = st\<lparr>replan_count := replan_count st + 1\<rparr>;
          st2 = st1\<lparr>message := warning_sign @ '' Path blocked! Re-planning'' @ ellipsis
                                 @ '' (#'' @ str_int (replan_count st1) @ '')''\<rparr>
      in case map_of ALGORITHMS (algo_name st2) of
           None \<Rightarrow> Inl KeyError
         | Some algo_fn \<Rightarrow> Inr (st2\<lparr>generator := Some (algo_fn (grid st2))\<rparr>))"

fun scan_path :: "algorithms \<Rightarrow> coord list \<Rightarrow> app \<Rightarrow> error + app" where
  "scan_path ALGORITHMS [] st = Inr st"
| "scan_path ALGORITHMS (pos # ps) st =
     (case cell_at (grid st) pos of
        Inl e \<Rightarrow> Inl e
      | Inr v \<Rightarrow> if v = WALL then replan ALGORITHMS st else scan_path ALGORITHMS ps st)"

definition check_blocked :: "algorithms \<Rightarrow> app \<Rightarrow> error + app" where
  "check_blocked ALGORITHMS st =
     (if path st \<noteq> [] \<and> \<not> found st then scan_path ALGORITHMS (path st) st else Inr st)"

text \<open>The last statement of \<^verbatim>\<open>step\<close>.\<close>

definition finish :: "app \<Rightarrow> app" where
  "finish st =
     (if found st \<or> failed st
      then st\<lparr>running := False, algo_buttons := deactivate_all (algo_buttons st)\<rparr>
      else st)"

text \<open>
  The assignments of \<^verbatim>\<open>step\<close> that copy the yielded dictionary \<open>state\<close> into the
  fields of the application.
\<close>

definition take_snapshot :: "snapshot \<Rightarrow> app \<Rightarrow> app" where
  "take_snapshot state st =
     st\<lparr>frontier := snap_frontier state,
        explored := snap_explored state,
        path := snap_path state,
        found := snap_found state,
        failed := snap_failed state,
        message := snap_message state\<rparr>"

text \<open>
  \<^verbatim>\<open>step()\<close>. The generator object is shared state: after \<^verbatim>\<open>next\<close> the field
  \<open>generator\<close> holds the generator in the state \<^verbatim>\<open>next\<close> left it in, and the grid
  is as the generator left it.
\<close>

definition step :: "int \<Rightarrow> int \<Rightarrow> algorithms \<Rightarrow> app \<Rightarrow> error + app" where
  "step ROWS COLS ALGORITHMS st =
     (case generator st of
        None \<Rightarrow> Inr st
      | Some gen \<Rightarrow>
          if \<not> running st then Inr st
          else
            (case gnext gen (grid st) of
               (g', None) \<Rightarrow>
                 Inr (st\<lparr>grid := g', generator := Some exhausted, running := False\<rparr>)
             | (g', Some (state, gen')) \<Rightarrow>
                 (let st1 = take_snapshot state (st\<lparr>grid := g', generator := Some gen'\<rparr>)
                  in case record_walls ROWS COLS st1 of
                       Inl e \<Rightarrow> Inl e
                     | Inr st2 \<Rightarrow>
                         (case check_blocked ALGORITHMS st2 of
                            Inl e \<Rightarrow> Inl e
                          | Inr st3 \<Rightarrow> Inr (finish st3)))))"

text \<open>
  Modelled from the spec: \<^verbatim>\<open>Grid.reset()\<close> of \<^verbatim>\<open>pathfinder_part1\<close>, which
  regenerates the grid with a fresh random wall layout and preserves the start and
  target positions. The layout drawn is the argument.
\<close>

definition Grid_reset :: "cell list list \<Rightarrow> Grid \<Rightarrow> Grid" where
  "Grid_reset layout g = g\<lparr>cells := layout\<rparr>"

text \<open>
  \<^verbatim>\<open>reset()\<close>. The random generator produces the sequence of layouts \<open>rnd\<close>; the
  call draws the next one.
\<close>

definition reset :: "(nat \<Rightarrow> cell list list) \<Rightarrow> app \<Rightarrow> app" where
  "reset rnd st =
     st\<lparr>grid := Grid_reset (rnd (rng_pos st)) (grid st),
        rng_pos := Suc (rng_pos st),
        generator := None, frontier := {}, explored := {}, path := [],
        found := False, failed := False, running := False,
        message := ''Grid reset. Choose an algorithm.'',
        algo_name := [], dynamic_walls := {}, replan_count := 0,
        algo_buttons := deactivate_all (algo_buttons st)\<rparr>"

section \<open>Layout and construction\<close>

definition CELL_SIZE :: int where "CELL_SIZE = 46"
definition PANEL_WIDTH :: int where "PANEL_WIDTH = 220"
definition MARGIN_TOP :: int where "MARGIN_TOP = 60"
definition MARGIN_LEFT :: int where "MARGIN_LEFT = 10"

definition GRID_PX_W :: "int \<Rightarrow> int" where
  "GRID_PX_W COLS = COLS * CELL_SIZE"

definition new_button :: "int \<Rightarrow> int \<Rightarrow> int \<Rightarrow> int \<Rightarrow> string \<Rightarrow> Button" where
  "new_button x y w h l = \<lparr>rect = (x, y, w, h), label = l, active = False\<rparr>"

text \<open>
  The loop \<^verbatim>\<open>for name in ALGORITHMS\<close> of \<^verbatim>\<open>_build_buttons\<close>: one button per
  name, each \<open>bh + gap\<close> pixels below the one before. It returns the dictionary and
  the final \<open>py\<close>.
\<close>

fun build_algo_buttons ::
  "int \<Rightarrow> int \<Rightarrow> int \<Rightarrow> int \<Rightarrow> int \<Rightarrow> string list \<Rightarrow> (string \<times> Button) list
     \<Rightarrow> (string \<times> Button) list \<times> int" where
  "build_algo_buttons px py bw bh gap [] bs = (bs, py)"
| "build_algo_buttons px py bw bh gap (name # ns) bs =
     build_algo_buttons px (py + (bh + gap)) bw bh gap ns
       (AList.update name (new_button px py bw bh name) bs)"

text \<open>\<^verbatim>\<open>_build_buttons()\<close>.\<close>

definition build_buttons :: "int \<Rightarrow> algorithms \<Rightarrow> app \<Rightarrow> app" where
  "build_buttons COLS ALGORITHMS st =
     (let px = GRID_PX_W COLS + MARGIN_LEFT * 2 + 10;
          py = MARGIN_TOP + 10;
          bw = PANEL_WIDTH - 20;
          bh = 36;
          gap = 8;
          (bs, py1) = build_algo_buttons px py bw bh gap (map fst ALGORITHMS) [];
          py2 = py1 + 10;
          py3 = py2 + (bh + gap);
          py4 = py3 + (bh + gap);
          py5 = py4 + (bh + gap)
      in st\<lparr>algo_buttons := bs,
            btn_reset := new_button px py2 bw bh ''Reset Grid'',
            btn_speed_up := new_button px py3 (bw div 2 - 2) bh ''Speed +'',
            btn_speed_dn := new_button (px + bw div 2 + 2) py3 (bw div 2 - 2) bh ''Speed -'',
            btn_step := new_button px py4 bw bh ''Step Mode: OFF'',
            btn_next := new_button px py5 bw bh ''Next Step''\<rparr>)"

text \<open>
  \<^verbatim>\<open>__init__\<close>, followed by the initialisation of \<open>dragging_wall\<close> in \<^verbatim>\<open>run\<close>.
  The grid built by \<^verbatim>\<open>Grid(ROWS, COLS)\<close> is the argument \<open>g0\<close>.
\<close>

definition init_app :: "int \<Rightarrow> algorithms \<Rightarrow> Grid \<Rightarrow> app" where
  "init_app COLS ALGORITHMS g0 =
     build_buttons COLS ALGORITHMS
       \<lparr>grid = g0, generator = None, frontier = {}, explored = {}, path = [],
        found = False, failed = False, running = False,
        message = ''Select an algorithm and click its button.'',
        algo_name = [], dynamic_walls = {}, speed = 8, last_t = 0,
        step_mode = False, replan_count = 0, algo_buttons = [],
        btn_reset = new_button 0 0 0 0 [], btn_speed_up = new_button 0 0 0 0 [],
        btn_speed_dn = new_button 0 0 0 0 [], btn_step = new_button 0 0 0 0 [],
        btn_next = new_button 0 0 0 0 [], dragging_wall = False, rng_pos = 0\<rparr>"

text \<open>
  The rectangles of the buttons: those of the algorithm buttons with their names, in
  order, and those of the five buttons below them.
\<close>

definition button_rects ::
  "app \<Rightarrow> (string \<times> (int \<times> int \<times> int \<times> int)) list \<times> (int \<times> int \<times> int \<times> int) list" where
  "button_rects st =
     (map (\<lambda>(n, b). (n, rect b)) (algo_buttons st),
      [rect (btn_reset st), rect (btn_speed_up st), rect (btn_speed_dn st),
       rect (btn_step st), rect (btn_next st)])"

text \<open>
  The rectangles that \<^verbatim>\<open>_build_buttons\<close> gives the algorithm buttons for a list of
  distinct names: a column at \<open>px\<close> from \<open>py\<close> downwards.
\<close>

fun algo_rects ::
  "int \<Rightarrow> int \<Rightarrow> int \<Rightarrow> int \<Rightarrow> int \<Rightarrow> string list
     \<Rightarrow> (string \<times> (int \<times> int \<times> int \<times> int)) list" where
  "algo_rects px py bw bh gap [] = []"
| "algo_rects px py bw bh gap (n # ns) =
     (n, (px, py, bw, bh)) # algo_rects px (py + (bh + gap)) bw bh gap ns"

section \<open>The event loop\<close>

text \<open>\<^verbatim>\<open>pixel_to_cell(px, py)\<close>; Python's \<^verbatim>\<open>//\<close> is floor division.\<close>

definition pixel_to_cell :: "int \<Rightarrow> int \<Rightarrow> coord \<Rightarrow> coord option" where
  "pixel_to_cell ROWS COLS p =
     (let col = (fst p - MARGIN_LEFT) div CELL_SIZE;
          row = (snd p - MARGIN_TOP) div CELL_SIZE
      in if 0 \<le> row \<and> row < ROWS \<and> 0 \<le> col \<and> col < COLS then Some (row, col) else None)"

text \<open>
  \<^verbatim>\<open>pygame.Rect.collidepoint\<close>: the left and top edges belong to the rectangle, the
  right and bottom edges do not.
\<close>

definition collidepoint :: "int \<times> int \<times> int \<times> int \<Rightarrow> coord \<Rightarrow> bool" where
  "collidepoint r p =
     (case r of (x, y, w, h) \<Rightarrow> x \<le> fst p \<and> fst p < x + w \<and> y \<le> snd p \<and> snd p < y + h)"

text \<open>
  \<^verbatim>\<open>Button.is_clicked(event)\<close> for an event of type \<^verbatim>\<open>MOUSEBUTTONDOWN\<close> with the
  given button number and position.
\<close>

definition is_clicked :: "Button \<Rightarrow> int \<Rightarrow> coord \<Rightarrow> bool" where
  "is_clicked b button p = (button = 1 \<and> collidepoint (rect b) p)"

text \<open>
  Modelled from the spec: \<^verbatim>\<open>Grid.toggle_wall(r, c)\<close> of \<^verbatim>\<open>pathfinder_part1\<close>,
  which flips a cell between empty and wall and does nothing at the start, at the
  target or out of bounds.
\<close>

definition Grid_toggle_wall :: "Grid \<Rightarrow> int \<Rightarrow> int \<Rightarrow> Grid" where
  "Grid_toggle_wall g r c =
     (if (r, c) = start g \<or> (r, c) = target g \<or> r < 0 \<or> c < 0 then g
      else if nat r < length (cells g) \<and> nat c < length (cells g ! nat r) then
        (let row = cells g ! nat r; v = row ! nat c
         in if v = EMPTY then g\<lparr>cells := (cells g)[nat r := row[nat c := WALL]]\<rparr>
            else if v = WALL then g\<lparr>cells := (cells g)[nat r := row[nat c := EMPTY]]\<rparr>
            else g)
      else g)"

text \<open>The left-click branch of \<^verbatim>\<open>run\<close>: toggle the wall under the pointer.\<close>

definition left_click :: "int \<Rightarrow> int \<Rightarrow> coord \<Rightarrow> app \<Rightarrow> app" where
  "left_click ROWS COLS p st =
     (case pixel_to_cell ROWS COLS p of
        None \<Rightarrow> st
      | Some (r, c) \<Rightarrow>
          if \<not> running st then st\<lparr>grid := Grid_toggle_wall (grid st) r c\<rparr> else st)"

text \<open>
  The loop over \<^verbatim>\<open>self.algo_buttons.items()\<close>: every button that the event clicks
  resets the application and starts its algorithm.
\<close>

fun click_algo_buttons ::
  "(nat \<Rightarrow> cell list list) \<Rightarrow> algorithms \<Rightarrow> real \<Rightarrow> int \<Rightarrow> coord
     \<Rightarrow> (string \<times> Button) list \<Rightarrow> app \<Rightarrow> error + app" where
  "click_algo_buttons rnd ALGORITHMS now button p [] st = Inr st"
| "click_algo_buttons rnd ALGORITHMS now button p ((name, btn) # bs) st =
     (if is_clicked btn button p
      then (case start_algorithm ALGORITHMS now name (reset rnd st) of
              Inl e \<Rightarrow> Inl e
            | Inr st' \<Rightarrow> click_algo_buttons rnd ALGORITHMS now button p bs st')
      else click_algo_buttons rnd ALGORITHMS now button p bs st)"

text \<open>
  The clicks on the buttons below the algorithm buttons: reset, speed up, speed down,
  step mode and next step, tested in this order.
\<close>

definition click_utility_buttons ::
  "(nat \<Rightarrow> cell list list) \<Rightarrow> int \<Rightarrow> int \<Rightarrow> algorithms \<Rightarrow> int \<Rightarrow> coord
     \<Rightarrow> app \<Rightarrow> error + app" where
  "click_utility_buttons rnd ROWS COLS ALGORITHMS button p st3 =
     (let st4 = (if is_clicked (btn_reset st3) button p then reset rnd st3 else st3);
          st5 = (if is_clicked (btn_speed_up st4) button p
                 then st4\<lparr>speed := min (speed st4 + 2) 60\<rparr> else st4);
          st6 = (if is_clicked (btn_speed_dn st5) button p
                 then st5\<lparr>speed := max (speed st5 - 2) 1\<rparr> else st5);
          st7 = (if is_clicked (btn_step st6) button p
                 then st6\<lparr>step_mode := \<not> step_mode st6,
                          btn_step := (btn_step st6)\<lparr>label :=
                            (if \<not> step_mode st6 then ''Step Mode: ON''
                             else ''Step Mode: OFF'')\<rparr>\<rparr>
                 else st6)
      in if is_clicked (btn_next st7) button p \<and> step_mode st7
         then step ROWS COLS ALGORITHMS st7
         else Inr st7)"

text \<open>The branch of \<^verbatim>\<open>run\<close> for an event of type \<^verbatim>\<open>MOUSEBUTTONDOWN\<close>.\<close>

definition mouse_button_down ::
  "(nat \<Rightarrow> cell list list) \<Rightarrow> int \<Rightarrow> int \<Rightarrow> algorithms \<Rightarrow> real \<Rightarrow> int \<Rightarrow> coord
     \<Rightarrow> app \<Rightarrow> error + app" where
  "mouse_button_down rnd ROWS COLS ALGORITHMS now button p st =
     (let st1 = (if button = 1 then left_click ROWS COLS p st else st);
          st2 = (if button = 3 then st1\<lparr>dragging_wall := True\<rparr> else st1)
      in case click_algo_buttons rnd ALGORITHMS now button p (algo_buttons st2) st2 of
           Inl e \<Rightarrow> Inl e
         | Inr st3 \<Rightarrow> click_utility_buttons rnd ROWS COLS ALGORITHMS button p st3)"

text \<open>The assignment \<^verbatim>\<open>xs[i] = v\<close> on a Python list.\<close>

definition py_assign :: "'a list \<Rightarrow> int \<Rightarrow> 'a \<Rightarrow> error + 'a list" where
  "py_assign xs i v =
     (if 0 \<le> i \<and> i < int (length xs) then Inr (xs[nat i := v])
      else if i < 0 \<and> - int (length xs) \<le> i then Inr (xs[nat (int (length xs) + i) := v])
      else Inl IndexError)"

text \<open>The write \<^verbatim>\<open>self.grid.grid[r][c] = WALL\<close>.\<close>

definition set_wall :: "Grid \<Rightarrow> int \<Rightarrow> int \<Rightarrow> error + Grid" where
  "set_wall g r c =
     (case py_index (cells g) r of
        Inl e \<Rightarrow> Inl e
      | Inr row \<Rightarrow>
          (case py_assign row c WALL of
             Inl e \<Rightarrow> Inl e
           | Inr row' \<Rightarrow>
               (case py_assign (cells g) r row' of
                  Inl e \<Rightarrow> Inl e
                | Inr cs \<Rightarrow> Inr (g\<lparr>cells := cs\<rparr>))))"

text \<open>The branch of \<^verbatim>\<open>run\<close> for an event of type \<^verbatim>\<open>MOUSEMOTION\<close>.\<close>

definition mouse_motion :: "int \<Rightarrow> int \<Rightarrow> coord \<Rightarrow> app \<Rightarrow> error + app" where
  "mouse_motion ROWS COLS p st =
     (if dragging_wall st then
        (case pixel_to_cell ROWS COLS p of
           None \<Rightarrow> Inr st
         | Some (r, c) \<Rightarrow>
             if \<not> running st \<and> (r, c) \<noteq> start (grid st) \<and> (r, c) \<noteq> target (grid st)
             then (case set_wall (grid st) r c of
                     Inl e \<Rightarrow> Inl e
                   | Inr g \<Rightarrow> Inr (st\<lparr>grid := g\<rparr>))
             else Inr st)
      else Inr st)"

datatype key = K_r | K_SPACE | K_other

datatype event =
    QUIT
  | KEYDOWN key
  | MOUSEBUTTONDOWN int coord
  | MOUSEBUTTONUP int
  | MOUSEMOTION coord
  | OTHER

text \<open>
  The body of the loop \<^verbatim>\<open>for event in pygame.event.get()\<close>. \<^verbatim>\<open>sys.exit()\<close> ends
  the program by raising \<^verbatim>\<open>SystemExit\<close>.
\<close>

fun handle_event ::
  "(nat \<Rightarrow> cell list list) \<Rightarrow> int \<Rightarrow> int \<Rightarrow> algorithms \<Rightarrow> real \<Rightarrow> event
     \<Rightarrow> app \<Rightarrow> error + app" where
  "handle_event rnd ROWS COLS ALGORITHMS now QUIT st = Inl SystemExit"
| "handle_event rnd ROWS COLS ALGORITHMS now (KEYDOWN k) st =
     (if k = K_r then Inr (reset rnd st)
      else if k = K_SPACE \<and> step_mode st then step ROWS COLS ALGORITHMS st
      else Inr st)"
| "handle_event rnd ROWS COLS ALGORITHMS now (MOUSEBUTTONDOWN button p) st =
     mouse_button_down rnd ROWS COLS ALGORITHMS now button p st"
| "handle_event rnd ROWS COLS ALGORITHMS now (MOUSEBUTTONUP button) st =
     (if button = 3 then Inr (st\<lparr>dragging_wall := False\<rparr>) else Inr st)"
| "handle_event rnd ROWS COLS ALGORITHMS now (MOUSEMOTION p) st =
     mouse_motion ROWS COLS p st"
| "handle_event rnd ROWS COLS ALGORITHMS now OTHER st = Inr st"

text \<open>
  The auto-step of \<^verbatim>\<open>run\<close>, with the clock reading \<open>now\<close>. The test
  \<^verbatim>\<open>now - self.last_t >= 1.0 / self.speed\<close> is computed in floating point; its
  outcome is the argument \<open>due\<close>. The division raises \<^verbatim>\<open>ZeroDivisionError\<close> when
  \<open>speed\<close> is zero.
\<close>

definition auto_step ::
  "int \<Rightarrow> int \<Rightarrow> algorithms \<Rightarrow> real \<Rightarrow> bool \<Rightarrow> app \<Rightarrow> error + app" where
  "auto_step ROWS COLS ALGORITHMS now due st =
     (if running st \<and> \<not> step_mode st then
        (if speed st = 0 then Inl ZeroDivisionError
         else if due then
           (case step ROWS COLS ALGORITHMS st of
              Inl e \<Rightarrow> Inl e
            | Inr st' \<Rightarrow> Inr (st'\<lparr>last_t := now\<rparr>))
         else Inr st)
      else Inr st)"

text \<open>
  The states that a run of the application passes through: the state after
  \<^verbatim>\<open>__init__\<close>, and every state that an event or an auto-step leads to without
  raising.
\<close>

inductive reachable ::
  "(nat \<Rightarrow> cell list list) \<Rightarrow> int \<Rightarrow> int \<Rightarrow> algorithms \<Rightarrow> Grid \<Rightarrow> app \<Rightarrow> bool"
  for rnd :: "nat \<Rightarrow> cell list list" and ROWS :: int and COLS :: int
    and ALGORITHMS :: algorithms and g0 :: Grid where
  reach_init: "reachable rnd ROWS COLS ALGORITHMS g0 (init_app COLS ALGORITHMS g0)"
| reach_event:
    "reachable rnd ROWS COLS ALGORITHMS g0 st \<Longrightarrow>
     handle_event rnd ROWS COLS ALGORITHMS now e st = Inr st' \<Longrightarrow>
     reachable rnd ROWS COLS ALGORITHMS g0 st'"
| reach_auto_step:
    "reachable rnd ROWS COLS ALGORITHMS g0 st \<Longrightarrow>
     auto_step ROWS COLS ALGORITHMS now due st = Inr st' \<Longrightarrow>
     reachable rnd ROWS COLS ALGORITHMS g0 st'"

text \<open>
  A property of the state is stable when every elementary operation of the event loop
  keeps it: the wall edits, the flag and speed updates, reset, a start after a reset,
  and a step.
\<close>

definition stable ::
  "(nat \<Rightarrow> cell list list) \<Rightarrow> int \<Rightarrow> int \<Rightarrow> algorithms \<Rightarrow> (app \<Rightarrow> bool) \<Rightarrow> bool" where
  "stable rnd ROWS COLS ALGORITHMS P \<longleftrightarrow>
     (\<forall>s q. P s \<longrightarrow> P (left_click ROWS COLS q s)) \<and>
     (\<forall>s q s'. P s \<longrightarrow> mouse_motion ROWS COLS q s = Inr s' \<longrightarrow> P s') \<and>
     (\<forall>s v. P s \<longrightarrow> P (s\<lparr>dragging_wall := v\<rparr>)) \<and>
     (\<forall>s v. P s \<longrightarrow> P (s\<lparr>speed := v\<rparr>)) \<and>
     (\<forall>s v. P s \<longrightarrow> P (s\<lparr>last_t := v\<rparr>)) \<and>
     (\<forall>s v l. P s \<longrightarrow> P (s\<lparr>step_mode := v, btn_step := (btn_step s)\<lparr>label := l\<rparr>\<rparr>)) \<and>
     (\<forall>s. P s \<longrightarrow> P (reset rnd s)) \<and>
     (\<forall>s now name s'. P s \<longrightarrow>
        start_algorithm ALGORITHMS now name (reset rnd s) = Inr s' \<longrightarrow> P s') \<and>
     (\<forall>s s'. P s \<longrightarrow> step ROWS COLS ALGORITHMS s = Inr s' \<longrightarrow> P s')"

section \<open>Drawing\<close>

type_synonym colour = "int \<times> int \<times> int"

definition C_CELL_EMPTY :: colour where "C_CELL_EMPTY = (25, 30, 45)"
definition C_WALL :: colour where "C_WALL = (50, 55, 70)"
definition C_DYN_WALL :: colour where "C_DYN_WALL = (180, 60, 20)"
definition C_START :: colour where "C_START = (30, 180, 100)"
definition C_TARGET :: colour where "C_TARGET = (220, 80, 50)"
definition C_FRONTIER :: colour where "C_FRONTIER = (60, 120, 220)"
definition C_EXPLORED :: colour where "C_EXPLORED = (60, 80, 130)"
definition C_PATH :: colour where "C_PATH = (255, 210, 50)"

text \<open>
  The fill colour that \<^verbatim>\<open>_draw_grid\<close> chooses for the cell at \<open>pos\<close> whose state is
  \<open>val\<close>.
\<close>

definition cell_colour :: "app \<Rightarrow> coord \<Rightarrow> cell \<Rightarrow> colour" where
  "cell_colour st pos val =
     (if val = WALL then (if pos \<in> dynamic_walls st then C_DYN_WALL else C_WALL)
      else if pos = start (grid st) then C_START
      else if pos = target (grid st) then C_TARGET
      else if pos \<in> set (path st) then C_PATH
      else if pos \<in> frontier st then C_FRONTIER
      else if pos \<in> explored st then C_EXPLORED
      else C_CELL_EMPTY)"

section \<open>Well-formed inputs\<close>

text \<open>
  The cell matrix has at least \<open>ROWS\<close> rows, and each of the first \<open>ROWS\<close> rows has
  at least \<open>COLS\<close> cells, as in a grid built by \<^verbatim>\<open>Grid(ROWS, COLS)\<close>.
\<close>

definition grid_covers :: "int \<Rightarrow> int \<Rightarrow> Grid \<Rightarrow> bool" where
  "grid_covers ROWS COLS g =
     (ROWS \<le> int (length (cells g)) \<and>
      (\<forall>row \<in> set (take (nat ROWS) (cells g)). COLS \<le> int (length row)))"

text \<open>The position indexes a cell of the matrix: reading it does not raise.\<close>

definition readable :: "Grid \<Rightarrow> coord \<Rightarrow> bool" where
  "readable g pos = (case cell_at g pos of Inl e \<Rightarrow> False | Inr v \<Rightarrow> True)"

section \<open>An example run\<close>

text \<open>
  A \<open>2 \<times> 2\<close> grid with a wall at \<open>(1, 0)\<close>, and generators that yield one snapshot
  each: a tentative path through the wall, the same with \<open>failed\<close> set, and a confirmed
  path.
\<close>

definition demo_grid :: Grid where
  "demo_grid = \<lparr>cells = [[START, EMPTY], [WALL, TARGET]], start = (0, 0), target = (1, 1)\<rparr>"

definition demo_snapshot :: snapshot where
  "demo_snapshot =
     \<lparr>snap_frontier = {(0, 1)}, snap_explored = {(0, 0)},
      snap_path = [(0, 0), (1, 0)], snap_found = False, snap_failed = False,
      snap_message = ''Exploring''\<rparr>"

definition demo_gen :: gen where
  "demo_gen = Gen (\<lambda>g. (g, Some (demo_snapshot, exhausted)))"

definition demo_failed_gen :: gen where
  "demo_failed_gen = Gen (\<lambda>g. (g, Some (demo_snapshot\<lparr>snap_failed := True\<rparr>, exhausted)))"

definition demo_found_snapshot :: snapshot where
  "demo_found_snapshot =
     \<lparr>snap_frontier = {}, snap_explored = {(0, 0), (0, 1)},
      snap_path = [(0, 0), (0, 1), (1, 1)], snap_found = True, snap_failed = False,
      snap_message = ''Found''\<rparr>"

definition demo_found_gen :: gen where
  "demo_found_gen = Gen (\<lambda>g. (g, Some (demo_found_snapshot, exhausted)))"

definition demo_algorithms :: algorithms where
  "demo_algorithms = [(''BFS'', \<lambda>g. demo_gen), (''DFS'', \<lambda>g. demo_found_gen)]"

definition demo_app :: app where
  "demo_app = init_app 2 demo_algorithms demo_grid"

definition demo_running :: app where
  "demo_running =
     demo_app\<lparr>generator := Some demo_gen, running := True, algo_name := ''BFS''\<rparr>"

definition demo_failing :: app where
  "demo_failing = demo_running\<lparr>generator := Some demo_failed_gen\<rparr>"

definition demo_replan_message :: string where
  "demo_replan_message =
     warning_sign @ '' Path blocked! Re-planning'' @ ellipsis @ '' (#1)''"

text \<open>The state that \<^verbatim>\<open>step\<close> leaves from \<open>demo_running\<close>.\<close>

definition demo_replanned :: app where
  "demo_replanned =
     demo_running\<lparr>frontier := {(0, 1)}, explored := {(0, 0)}, path := [(0, 0), (1, 0)],
       message := demo_replan_message, replan_count := 1\<rparr>"

text \<open>The state that \<^verbatim>\<open>step\<close> leaves from \<open>demo_failing\<close>.\<close>

definition demo_failed_replanned :: app where
  "demo_failed_replanned =
     demo_replanned\<lparr>failed := True, running := False\<rparr>"

definition demo_dragging :: app where
  "demo_dragging = demo_app\<lparr>dragging_wall := True\<rparr>"

definition demo_painted :: app where
  "demo_painted =
     demo_dragging\<lparr>grid := demo_grid\<lparr>cells := [[START, WALL], [WALL, TARGET]]\<rparr>\<rparr>"

text \<open>
  A run of the example: a click on the button of \<open>DFS\<close>, an auto-step that yields the
  confirmed path, a right click that starts painting, and a drag over the cell
  \<open>(0, 1)\<close>, which lies on the path.
\<close>

definition demo_rnd :: "nat \<Rightarrow> cell list list" where
  "demo_rnd n = [[START, EMPTY], [EMPTY, TARGET]]"

definition demo_started :: app where
  "demo_started =
     demo_app\<lparr>grid := demo_grid\<lparr>cells := [[START, EMPTY], [EMPTY, TARGET]]\<rparr>,
       rng_pos := 1, generator := Some demo_found_gen, running := True,
       algo_name := ''DFS'', message := ''Running DFS'' @ ellipsis,
       algo_buttons :=
         [(''BFS'', new_button 122 70 200 36 ''BFS''),
          (''DFS'', (new_button 122 114 200 36 ''DFS'')\<lparr>active := True\<rparr>)]\<rparr>"

definition demo_found :: app where
  "demo_found =
     demo_started\<lparr>frontier := {}, explored := {(0, 0), (0, 1)},
       path := [(0, 0), (0, 1), (1, 1)], found := True, message := ''Found'',
       generator := Some exhausted, running := False, last_t := 1,
       algo_buttons :=
         [(''BFS'', new_button 122 70 200 36 ''BFS''),
          (''DFS'', new_button 122 114 200 36 ''DFS'')]\<rparr>"

definition demo_found_dragging :: app where
  "demo_found_dragging = demo_found\<lparr>dragging_wall := True\<rparr>"

definition demo_found_walled :: app where
  "demo_found_walled =
     demo_found_dragging\<lparr>grid := demo_grid\<lparr>cells := [[START, WALL], [EMPTY, TARGET]]\<rparr>\<rparr>"

section \<open>Auxiliary facts\<close>

lemma init_app_fields:
  "grid (init_app COLS ALGORITHMS g0) = g0"
  "generator (init_app COLS ALGORITHMS g0) = None"
  "running (init_app COLS ALGORITHMS g0) = False"
  "found (init_app COLS ALGORITHMS g0) = False"
  "dynamic_walls (init_app COLS ALGORITHMS g0) = {}"
  "replan_count (init_app COLS ALGORITHMS g0) = 0"
  by (simp_all add: init_app_def build_buttons_def Let_def split: prod.split)

lemma gnext_exhausted: "gnext exhausted g = (g, None)"
  by (simp add: exhausted_def)

lemma demo_running_fields:
  "grid demo_running = demo_grid"
  "generator demo_running = Some demo_gen"
  "running demo_running = True"
  "algo_name demo_running = ''BFS''"
  "replan_count demo_running = 0"
  by (simp_all add: demo_running_def demo_app_def init_app_fields)

text \<open>The wall-recording loop raises nothing on a grid that covers \<open>ROWS \<times> COLS\<close>.\<close>

lemma record_row_ok:
  "\<forall>c \<in> set cs. readable g (r, c) \<Longrightarrow> record_row g dyn r cs = Inr ()"
  by (induction cs) (auto simp: readable_def split: sum.splits)

lemma record_rows_ok:
  "\<forall>r \<in> set rs. \<forall>c \<in> set cs. readable g (r, c) \<Longrightarrow> record_rows g dyn rs cs = Inr ()"
  by (induction rs) (auto simp: record_row_ok split: sum.splits)

lemma grid_covers_readable:
  assumes "grid_covers ROWS COLS g" and "r \<in> set (py_range ROWS)"
    and "c \<in> set (py_range COLS)"
  shows "readable g (r, c)"
proof -
  from assms(2) obtain i where i: "r = int i" "i < nat ROWS"
    by (auto simp: py_range_def)
  from assms(3) obtain j where j: "c = int j" "j < nat COLS"
    by (auto simp: py_range_def)
  from assms(1) i have len: "i < length (cells g)"
    by (auto simp: grid_covers_def)
  with i have "cells g ! i \<in> set (take (nat ROWS) (cells g))"
    by (auto simp: in_set_conv_nth intro!: exI[of _ i])
  with assms(1) j have "j < length (cells g ! i)"
    by (auto simp: grid_covers_def)
  with len i j show ?thesis
    by (simp add: readable_def cell_at_def py_index_def)
qed

lemma record_walls_ok:
  "grid_covers ROWS COLS (grid st) \<Longrightarrow> record_walls ROWS COLS st = Inr st"
  by (simp add: record_walls_def record_rows_ok grid_covers_readable)

text \<open>The scan of the path re-plans exactly when it meets a wall.\<close>

lemma scan_path_blocked:
  "\<forall>p \<in> set ps. readable (grid st) p \<Longrightarrow> \<exists>p \<in> set ps. cell_at (grid st) p = Inr WALL \<Longrightarrow>
   scan_path ALGORITHMS ps st = replan ALGORITHMS st"
  by (induction ps) (auto simp: readable_def split: sum.splits)

lemma scan_path_clear:
  "\<forall>p \<in> set ps. readable (grid st) p \<and> cell_at (grid st) p \<noteq> Inr WALL \<Longrightarrow>
   scan_path ALGORITHMS ps st = Inr st"
  by (induction ps) (auto simp: readable_def split: sum.splits)

lemma map_of_deactivate_all:
  "map_of (deactivate_all bs) name = map_option (\<lambda>b. b\<lparr>active := False\<rparr>) (map_of bs name)"
  by (induction bs) (auto simp: deactivate_all_def)

lemma step_pull:
  assumes "generator st = Some gen" and "running st"
    and "gnext gen (grid st) = (g', Some (state, gen'))"
    and "grid_covers ROWS COLS g'"
  shows "step ROWS COLS ALGORITHMS st =
           (case check_blocked ALGORITHMS
                   (take_snapshot state (st\<lparr>grid := g', generator := Some gen'\<rparr>)) of
              Inl e \<Rightarrow> Inl e
            | Inr st3 \<Rightarrow> Inr (finish st3))"
  using assms by (simp add: step_def Let_def record_walls_ok take_snapshot_def)

lemma take_snapshot_fields:
  "grid (take_snapshot state st) = grid st"
  "generator (take_snapshot state st) = generator st"
  "path (take_snapshot state st) = snap_path state"
  "found (take_snapshot state st) = snap_found state"
  "failed (take_snapshot state st) = snap_failed state"
  "frontier (take_snapshot state st) = snap_frontier state"
  "explored (take_snapshot state st) = snap_explored state"
  "running (take_snapshot state st) = running st"
  "algo_name (take_snapshot state st) = algo_name st"
  "replan_count (take_snapshot state st) = replan_count st"
  "dynamic_walls (take_snapshot state st) = dynamic_walls st"
  by (simp_all add: take_snapshot_def)

lemma step_replan_state:
  assumes "generator st = Some gen" and "running st"
    and "gnext gen (grid st) = (g', Some (state, gen'))"
    and "snap_path state \<noteq> []" and "\<not> snap_found state"
    and "\<exists>pos \<in> set (snap_path state). cell_at g' pos = Inr WALL"
    and "\<forall>pos \<in> set (snap_path state). readable g' pos"
    and "grid_covers ROWS COLS g'"
    and "map_of ALGORITHMS (algo_name st) = Some algo_fn"
  shows "step ROWS COLS ALGORITHMS st =
           Inr (finish
             ((take_snapshot state (st\<lparr>grid := g', generator := Some gen'\<rparr>))
                \<lparr>replan_count := replan_count st + 1,
                 message := warning_sign @ '' Path blocked! Re-planning'' @ ellipsis
                            @ '' (#'' @ str_int (replan_count st + 1) @ '')'',
                 generator := Some (algo_fn g')\<rparr>))"
proof -
  let ?st1 = "take_snapshot state (st\<lparr>grid := g', generator := Some gen'\<rparr>)"
  have "check_blocked ALGORITHMS ?st1 = scan_path ALGORITHMS (snap_path state) ?st1"
    using assms(4,5) by (simp add: check_blocked_def take_snapshot_fields)
  also have "\<dots> = replan ALGORITHMS ?st1"
    using assms(6,7) by (intro scan_path_blocked) (simp_all add: take_snapshot_fields)
  also have "\<dots> = Inr (?st1\<lparr>replan_count := replan_count st + 1,
                 message := warning_sign @ '' Path blocked! Re-planning'' @ ellipsis
                            @ '' (#'' @ str_int (replan_count st + 1) @ '')'',
                 generator := Some (algo_fn g')\<rparr>)"
    using assms(9) by (simp add: replan_def Let_def take_snapshot_fields)
  finally show ?thesis
    using assms(1,2,3,8) by (simp add: step_pull)
qed

lemma finish_fields:
  "grid (finish st) = grid st"
  "generator (finish st) = generator st"
  "path (finish st) = path st"
  "found (finish st) = found st"
  "failed (finish st) = failed st"
  "frontier (finish st) = frontier st"
  "explored (finish st) = explored st"
  "message (finish st) = message st"
  "algo_name (finish st) = algo_name st"
  "replan_count (finish st) = replan_count st"
  "dynamic_walls (finish st) = dynamic_walls st"
  "running (finish st) = (running st \<and> \<not> found st \<and> \<not> failed st)"
  by (simp_all add: finish_def)

lemma demo_grid_facts:
  "cell_at demo_grid (0, 0) = Inr START"
  "cell_at demo_grid (0, 1) = Inr EMPTY"
  "cell_at demo_grid (1, 0) = Inr WALL"
  "cell_at demo_grid (1, 1) = Inr TARGET"
  "grid_covers 2 2 demo_grid"
  by (simp_all add: demo_grid_def cell_at_def py_index_def grid_covers_def)

lemma demo_gen_facts:
  "gnext demo_gen g = (g, Some (demo_snapshot, exhausted))"
  "gnext demo_failed_gen g = (g, Some (demo_snapshot\<lparr>snap_failed := True\<rparr>, exhausted))"
  "gnext demo_found_gen g = (g, Some (demo_found_snapshot, exhausted))"
  by (simp_all add: demo_gen_def demo_failed_gen_def demo_found_gen_def)

lemma demo_algorithms_facts:
  "map_of demo_algorithms ''BFS'' = Some (\<lambda>g. demo_gen)"
  "map_of demo_algorithms ''DFS'' = Some (\<lambda>g. demo_found_gen)"
  by (simp_all add: demo_algorithms_def)

lemma demo_snapshot_fields:
  "snap_frontier demo_snapshot = {(0, 1)}"
  "snap_explored demo_snapshot = {(0, 0)}"
  "snap_path demo_snapshot = [(0, 0), (1, 0)]"
  "snap_found demo_snapshot = False"
  "snap_failed demo_snapshot = False"
  "snap_message demo_snapshot = ''Exploring''"
  by (simp_all add: demo_snapshot_def)

lemma demo_path_readable:
  "readable demo_grid (0, 0)" "readable demo_grid (1, 0)"
  by (simp_all add: readable_def demo_grid_facts)

lemma demo_app_fields:
  "frontier demo_app = {}" "explored demo_app = {}" "path demo_app = []"
  "failed demo_app = False" "found demo_app = False"
  "replan_count demo_app = 0" "grid demo_app = demo_grid"
  by (simp_all add: demo_app_def init_app_def build_buttons_def Let_def split: prod.split)

lemma str_int_1: "str_int 1 = ''1''"
  by (simp add: str_int_def str_nat.simps [of "Suc 0"])

lemma demo_app_buttons:
  "algo_buttons demo_app =
     [(''BFS'', new_button 122 70 200 36 ''BFS''), (''DFS'', new_button 122 114 200 36 ''DFS'')]"
  by (simp add: demo_app_def init_app_def build_buttons_def demo_algorithms_def
      GRID_PX_W_def CELL_SIZE_def MARGIN_LEFT_def MARGIN_TOP_def PANEL_WIDTH_def)

lemma demo_app_buttons_inactive:
  "deactivate_all (algo_buttons demo_app) = algo_buttons demo_app"
  by (simp add: demo_app_buttons deactivate_all_def new_button_def)

lemma demo_failing_fields:
  "grid demo_failing = demo_grid"
  "generator demo_failing = Some demo_failed_gen"
  "running demo_failing = True"
  "algo_name demo_failing = ''BFS''"
  "replan_count demo_failing = 0"
  by (simp_all add: demo_failing_def demo_running_fields)

lemma demo_step_running:
  "step 2 2 demo_algorithms demo_running = Inr demo_replanned"
proof -
  have "step 2 2 demo_algorithms demo_running =
          Inr (finish ((take_snapshot demo_snapshot
                 (demo_running\<lparr>grid := demo_grid, generator := Some exhausted\<rparr>))
                \<lparr>replan_count := replan_count demo_running + 1,
                 message := warning_sign @ '' Path blocked! Re-planning'' @ ellipsis
                            @ '' (#'' @ str_int (replan_count demo_running + 1) @ '')'',
                 generator := Some demo_gen\<rparr>))"
    by (rule step_replan_state [where gen = demo_gen and algo_fn = "\<lambda>g. demo_gen"])
      (simp_all add: demo_running_fields demo_gen_facts demo_grid_facts
        demo_algorithms_facts demo_snapshot_fields demo_path_readable)
  also have "\<dots> = Inr demo_replanned"
    by (simp add: finish_def take_snapshot_def demo_replanned_def demo_snapshot_fields
        demo_running_fields demo_replan_message_def str_int_1
        demo_running_def demo_app_fields)
  finally show ?thesis .
qed

lemma demo_step_failing:
  "step 2 2 demo_algorithms demo_failing = Inr demo_failed_replanned"
proof -
  have "step 2 2 demo_algorithms demo_failing =
          Inr (finish ((take_snapshot (demo_snapshot\<lparr>snap_failed := True\<rparr>)
                 (demo_failing\<lparr>grid := demo_grid, generator := Some exhausted\<rparr>))
                \<lparr>replan_count := replan_count demo_failing + 1,
                 message := warning_sign @ '' Path blocked! Re-planning'' @ ellipsis
                            @ '' (#'' @ str_int (replan_count demo_failing + 1) @ '')'',
                 generator := Some demo_gen\<rparr>))"
    by (rule step_replan_state [where gen = demo_failed_gen and algo_fn = "\<lambda>g. demo_gen"])
      (simp_all add: demo_failing_fields demo_gen_facts demo_grid_facts
        demo_algorithms_facts demo_snapshot_fields demo_path_readable)
  also have "\<dots> = Inr demo_failed_replanned"
    by (simp add: finish_def take_snapshot_def demo_replanned_def demo_snapshot_fields
        demo_failing_fields demo_replan_message_def str_int_1
        demo_running_def demo_failing_def demo_failed_replanned_def demo_app_fields
        demo_app_buttons_inactive)
  finally show ?thesis .
qed

lemma demo_replanned_fields:
  "frontier demo_replanned = {(0, 1)}"
  "explored demo_replanned = {(0, 0)}"
  "path demo_replanned = [(0, 0), (1, 0)]"
  "replan_count demo_replanned = 1"
  "running demo_replanned = True"
  "generator demo_replanned = Some demo_gen"
  "failed demo_replanned = False"
  "found demo_replanned = False"
  by (simp_all add: demo_replanned_def demo_running_fields demo_running_def demo_app_fields)


lemma check_blocked_clear:
  assumes "\<forall>pos \<in> set (path st). readable (grid st) pos"
    and "\<not> (\<exists>pos \<in> set (path st). cell_at (grid st) pos = Inr WALL)"
  shows "check_blocked ALGORITHMS st = Inr st"
  using assms by (simp add: check_blocked_def scan_path_clear)

lemma check_blocked_found: "found st \<Longrightarrow> check_blocked ALGORITHMS st = Inr st"
  by (simp add: check_blocked_def)

lemma check_blocked_empty: "path st = [] \<Longrightarrow> check_blocked ALGORITHMS st = Inr st"
  by (simp add: check_blocked_def)

lemma step_clear_state:
  assumes "generator st = Some gen" and "running st"
    and "gnext gen (grid st) = (g', Some (state, gen'))"
    and "snap_found state \<or> snap_path state = [] \<or>
         ((\<forall>pos \<in> set (snap_path state). readable g' pos) \<and>
          \<not> (\<exists>pos \<in> set (snap_path state). cell_at g' pos = Inr WALL))"
    and "grid_covers ROWS COLS g'"
  shows "step ROWS COLS ALGORITHMS st =
           Inr (finish (take_snapshot state (st\<lparr>grid := g', generator := Some gen'\<rparr>)))"
proof -
  let ?st1 = "take_snapshot state (st\<lparr>grid := g', generator := Some gen'\<rparr>)"
  from assms(4) consider "found ?st1" | "path ?st1 = []"
    | "(\<forall>pos \<in> set (path ?st1). readable (grid ?st1) pos) \<and>
       \<not> (\<exists>pos \<in> set (path ?st1). cell_at (grid ?st1) pos = Inr WALL)"
    by (auto simp: take_snapshot_fields)
  then have "check_blocked ALGORITHMS ?st1 = Inr ?st1"
  proof cases
    case 1
    then show ?thesis by (rule check_blocked_found)
  next
    case 2
    then show ?thesis by (rule check_blocked_empty)
  next
    case 3
    then show ?thesis by (intro check_blocked_clear) simp_all
  qed
  then show ?thesis
    using assms(1,2,3,5) by (simp add: step_pull)
qed

text \<open>What the operations leave of \<open>dynamic_walls\<close>, \<open>found\<close> and \<open>running\<close>.\<close>

lemma record_walls_same: "record_walls ROWS COLS st = Inr st' \<Longrightarrow> st' = st"
  by (simp add: record_walls_def split: sum.splits)

lemma replan_frame:
  assumes "replan ALGORITHMS st = Inr st'"
  shows "dynamic_walls st' = dynamic_walls st" and "found st' = found st"
    and "failed st' = failed st" and "running st' = running st"
  using assms by (auto simp: replan_def Let_def split: option.splits)

lemma scan_path_frame:
  assumes "scan_path ALGORITHMS ps st = Inr st'"
  shows "dynamic_walls st' = dynamic_walls st \<and> found st' = found st \<and>
         failed st' = failed st \<and> running st' = running st"
  using assms
  by (induction ps) (auto simp: replan_frame split: sum.splits if_splits)

lemma check_blocked_frame:
  assumes "check_blocked ALGORITHMS st = Inr st'"
  shows "dynamic_walls st' = dynamic_walls st \<and> found st' = found st \<and>
         failed st' = failed st \<and> running st' = running st"
  using assms by (auto simp: check_blocked_def dest: scan_path_frame split: if_splits)

lemma step_dynamic_walls:
  assumes "step ROWS COLS ALGORITHMS st = Inr st'"
  shows "dynamic_walls st' = dynamic_walls st"
proof (cases "generator st = None \<or> \<not> running st")
  case True
  with assms show ?thesis by (auto simp: step_def split: option.splits)
next
  case False
  then obtain gen where gen: "generator st = Some gen" and run: "running st" by auto
  obtain g' r where nxt: "gnext gen (grid st) = (g', r)" by (cases "gnext gen (grid st)")
  show ?thesis
  proof (cases r)
    case None
    with assms gen run nxt show ?thesis by (auto simp: step_def)
  next
    case (Some sg)
    obtain state gen' where sg: "sg = (state, gen')" by (cases sg)
    let ?st1 = "take_snapshot state (st\<lparr>grid := g', generator := Some gen'\<rparr>)"
    from assms gen run nxt Some sg obtain st3 where
      "check_blocked ALGORITHMS ?st1 = Inr st3" and "st' = finish st3"
      by (auto simp: step_def Let_def dest: record_walls_same split: sum.splits)
    then show ?thesis
      using check_blocked_frame [of ALGORITHMS ?st1 st3]
      by (simp add: finish_fields take_snapshot_fields)
  qed
qed

lemma step_found_idle:
  assumes "step ROWS COLS ALGORITHMS st = Inr st'" and "found st \<longrightarrow> \<not> running st"
  shows "found st' \<longrightarrow> \<not> running st'"
proof (cases "generator st = None \<or> \<not> running st")
  case True
  with assms show ?thesis by (auto simp: step_def split: option.splits)
next
  case False
  then obtain gen where gen: "generator st = Some gen" and run: "running st" by auto
  obtain g' r where nxt: "gnext gen (grid st) = (g', r)" by (cases "gnext gen (grid st)")
  show ?thesis
  proof (cases r)
    case None
    with assms gen run nxt show ?thesis by (auto simp: step_def)
  next
    case (Some sg)
    obtain state gen' where sg: "sg = (state, gen')" by (cases sg)
    let ?st1 = "take_snapshot state (st\<lparr>grid := g', generator := Some gen'\<rparr>)"
    from assms gen run nxt Some sg obtain st3 where
      "check_blocked ALGORITHMS ?st1 = Inr st3" and "st' = finish st3"
      by (auto simp: step_def Let_def dest: record_walls_same split: sum.splits)
    then show ?thesis
      by (simp add: finish_fields)
  qed
qed

lemma start_algorithm_frame:
  assumes "start_algorithm ALGORITHMS now name st = Inr st'"
  shows "dynamic_walls st' = {}" and "\<not> found st'"
  using assms
  by (auto simp: start_algorithm_def Let_def split: option.splits)

lemma reset_frame: "dynamic_walls (reset rnd st) = {}" "\<not> found (reset rnd st)"
  by (simp_all add: reset_def)

lemma left_click_frame:
  "dynamic_walls (left_click ROWS COLS p st) = dynamic_walls st"
  "found (left_click ROWS COLS p st) = found st"
  "running (left_click ROWS COLS p st) = running st"
  by (simp_all add: left_click_def split: option.splits prod.splits)

lemma mouse_motion_frame:
  assumes "mouse_motion ROWS COLS p st = Inr st'"
  shows "dynamic_walls st' = dynamic_walls st" and "found st' = found st"
    and "running st' = running st"
  using assms
  by (auto simp: mouse_motion_def split: if_splits option.splits prod.splits sum.splits)

text \<open>A stable property holds in every reachable state once it holds initially.\<close>

lemma stableD:
  assumes "stable rnd ROWS COLS ALGORITHMS P" and "P s"
  shows "P (left_click ROWS COLS q s)"
    and "mouse_motion ROWS COLS q s = Inr s' \<Longrightarrow> P s'"
    and "P (s\<lparr>dragging_wall := d\<rparr>)"
    and "P (s\<lparr>speed := v\<rparr>)"
    and "P (s\<lparr>last_t := t\<rparr>)"
    and "P (s\<lparr>step_mode := m, btn_step := (btn_step s)\<lparr>label := l\<rparr>\<rparr>)"
    and "P (reset rnd s)"
    and "start_algorithm ALGORITHMS now name (reset rnd s) = Inr s' \<Longrightarrow> P s'"
    and "step ROWS COLS ALGORITHMS s = Inr s' \<Longrightarrow> P s'"
proof -
  note st = assms(1) [unfolded stable_def]
  note a = st [THEN conjunct1]
  note b = st [THEN conjunct2, THEN conjunct1]
  note c = st [THEN conjunct2, THEN conjunct2, THEN conjunct1]
  note d = st [THEN conjunct2, THEN conjunct2, THEN conjunct2, THEN conjunct1]
  note e = st [THEN conjunct2, THEN conjunct2, THEN conjunct2, THEN conjunct2, THEN conjunct1]
  note f = st [THEN conjunct2, THEN conjunct2, THEN conjunct2, THEN conjunct2, THEN conjunct2, THEN conjunct1]
  note g = st [THEN conjunct2, THEN conjunct2, THEN conjunct2, THEN conjunct2, THEN conjunct2, THEN conjunct2, THEN conjunct1]
  note h = st [THEN conjunct2, THEN conjunct2, THEN conjunct2, THEN conjunct2, THEN conjunct2, THEN conjunct2, THEN conjunct2, THEN conjunct1]
  note i = st [THEN conjunct2, THEN conjunct2, THEN conjunct2, THEN conjunct2, THEN conjunct2, THEN conjunct2, THEN conjunct2, THEN conjunct2]
  show "P (left_click ROWS COLS q s)"
    using a [THEN spec, THEN spec, THEN mp, OF assms(2)] .
  show "P s'" if "mouse_motion ROWS COLS q s = Inr s'"
    using b [THEN spec, THEN spec, THEN spec, THEN mp, THEN mp, OF assms(2) that] .
  show "P (s\<lparr>dragging_wall := d\<rparr>)"
    using c [THEN spec, THEN spec, THEN mp, OF assms(2)] .
  show "P (s\<lparr>speed := v\<rparr>)"
    using d [THEN spec, THEN spec, THEN mp, OF assms(2)] .
  show "P (s\<lparr>last_t := t\<rparr>)"
    using e [THEN spec, THEN spec, THEN mp, OF assms(2)] .
  show "P (s\<lparr>step_mode := m, btn_step := (btn_step s)\<lparr>label := l\<rparr>\<rparr>)"
    using f [THEN spec, THEN spec, THEN spec, THEN mp, OF assms(2)] .
  show "P (reset rnd s)"
    using g [THEN spec, THEN mp, OF assms(2)] .
  show "P s'" if "start_algorithm ALGORITHMS now name (reset rnd s) = Inr s'"
    using h [THEN spec, THEN spec, THEN spec, THEN spec, THEN mp, THEN mp, OF assms(2) that] .
  show "P s'" if "step ROWS COLS ALGORITHMS s = Inr s'"
    using i [THEN spec, THEN spec, THEN mp, THEN mp, OF assms(2) that] .
qed

lemma click_algo_buttons_stable:
  assumes "stable rnd ROWS COLS ALGORITHMS P"
    and "click_algo_buttons rnd ALGORITHMS now button p bs st = Inr st'" and "P st"
  shows "P st'"
  using assms(2,3)
proof (induction bs arbitrary: st)
  case Nil
  then show ?case by simp
next
  case (Cons nb bs)
  obtain name btn where nb: "nb = (name, btn)" by (cases nb)
  show ?case
  proof (cases "is_clicked btn button p")
    case True
    with Cons.prems(1) nb obtain st1 where
      st1: "start_algorithm ALGORITHMS now name (reset rnd st) = Inr st1"
      and rest: "click_algo_buttons rnd ALGORITHMS now button p bs st1 = Inr st'"
      by (auto split: sum.splits)
    from assms(1) Cons.prems(2) st1 have "P st1"
      by (rule stableD(8))
    with rest show ?thesis by (rule Cons.IH)
  next
    case False
    with Cons.prems nb show ?thesis by (auto intro: Cons.IH)
  qed
qed

lemma click_utility_buttons_stable:
  assumes st: "stable rnd ROWS COLS ALGORITHMS P"
    and res: "click_utility_buttons rnd ROWS COLS ALGORITHMS button p st3 = Inr st'"
    and P: "P st3"
  shows "P st'"
proof -
  define st4 where "st4 = (if is_clicked (btn_reset st3) button p then reset rnd st3 else st3)"
  define st5 where "st5 = (if is_clicked (btn_speed_up st4) button p
                 then st4\<lparr>speed := min (speed st4 + 2) 60\<rparr> else st4)"
  define st6 where "st6 = (if is_clicked (btn_speed_dn st5) button p
                 then st5\<lparr>speed := max (speed st5 - 2) 1\<rparr> else st5)"
  define st7 where "st7 = (if is_clicked (btn_step st6) button p
                 then st6\<lparr>step_mode := \<not> step_mode st6,
                          btn_step := (btn_step st6)\<lparr>label :=
                            (if \<not> step_mode st6 then ''Step Mode: ON''
                             else ''Step Mode: OFF'')\<rparr>\<rparr>
                 else st6)"
  have fin: "(if is_clicked (btn_next st7) button p \<and> step_mode st7
         then step ROWS COLS ALGORITHMS st7 else Inr st7) = Inr st'"
    using res unfolding click_utility_buttons_def st4_def st5_def st6_def st7_def Let_def .
  from P have "P st4" unfolding st4_def by (simp add: stableD(7) [OF st])
  then have "P st5" unfolding st5_def by (simp add: stableD(4) [OF st])
  then have "P st6" unfolding st6_def by (simp add: stableD(4) [OF st])
  then have P7: "P st7" unfolding st7_def by (simp add: stableD(6) [OF st])
  show ?thesis
  proof (cases "is_clicked (btn_next st7) button p \<and> step_mode st7")
    case True
    with fin have "step ROWS COLS ALGORITHMS st7 = Inr st'" by simp
    with st P7 show ?thesis by (rule stableD(9))
  next
    case False
    with fin have "st' = st7" by simp
    with P7 show ?thesis by simp
  qed
qed

lemma mouse_button_down_stable:
  assumes st: "stable rnd ROWS COLS ALGORITHMS P"
    and res: "mouse_button_down rnd ROWS COLS ALGORITHMS now button p s = Inr s'"
    and P: "P s"
  shows "P s'"
proof -
  define st1 where "st1 = (if button = 1 then left_click ROWS COLS p s else s)"
  define st2 where "st2 = (if button = 3 then st1\<lparr>dragging_wall := True\<rparr> else st1)"
  from res obtain st3 where
    c: "click_algo_buttons rnd ALGORITHMS now button p (algo_buttons st2) st2 = Inr st3"
    and u: "click_utility_buttons rnd ROWS COLS ALGORITHMS button p st3 = Inr s'"
    unfolding mouse_button_down_def st1_def st2_def Let_def
    by (auto split: sum.splits)
  from P have "P st1" unfolding st1_def by (simp add: stableD(1) [OF st])
  then have "P st2" unfolding st2_def by (simp add: stableD(3) [OF st])
  with st c have "P st3" by (rule click_algo_buttons_stable)
  with st u show ?thesis by (rule click_utility_buttons_stable)
qed

lemma handle_event_stable:
  assumes st: "stable rnd ROWS COLS ALGORITHMS P"
    and res: "handle_event rnd ROWS COLS ALGORITHMS now e s = Inr s'"
    and P: "P s"
  shows "P s'"
proof (cases e)
  case QUIT
  with res show ?thesis by simp
next
  case (KEYDOWN k)
  show ?thesis
  proof (cases "k = K_r")
    case True
    with res KEYDOWN have "s' = reset rnd s" by simp
    with stableD(7) [OF st P] show ?thesis by simp
  next
    case False
    show ?thesis
    proof (cases "k = K_SPACE \<and> step_mode s")
      case True
      with res KEYDOWN False have "step ROWS COLS ALGORITHMS s = Inr s'" by simp
      with st P show ?thesis by (rule stableD(9))
    next
      case nostep: False
      with res KEYDOWN False have "s' = s" by simp
      with P show ?thesis by simp
    qed
  qed
next
  case (MOUSEBUTTONDOWN button p)
  with res have "mouse_button_down rnd ROWS COLS ALGORITHMS now button p s = Inr s'"
    by simp
  with st show ?thesis using P by (rule mouse_button_down_stable)
next
  case (MOUSEBUTTONUP button)
  show ?thesis
  proof (cases "button = 3")
    case True
    with res MOUSEBUTTONUP have "s' = s\<lparr>dragging_wall := False\<rparr>" by simp
    with stableD(3) [OF st P] show ?thesis by simp
  next
    case False
    with res MOUSEBUTTONUP have "s' = s" by simp
    with P show ?thesis by simp
  qed
next
  case (MOUSEMOTION p)
  with res have "mouse_motion ROWS COLS p s = Inr s'" by simp
  with st P show ?thesis by (rule stableD(2))
next
  case OTHER
  with res P show ?thesis by simp
qed

lemma auto_step_stable:
  assumes st: "stable rnd ROWS COLS ALGORITHMS P"
    and res: "auto_step ROWS COLS ALGORITHMS now due s = Inr s'"
    and P: "P s"
  shows "P s'"
proof (cases "running s \<and> \<not> step_mode s \<and> due")
  case True
  with res have nz: "speed s \<noteq> 0"
    by (simp add: auto_step_def split: if_splits)
  with res True obtain s1 where
    s1: "step ROWS COLS ALGORITHMS s = Inr s1" and s': "s' = s1\<lparr>last_t := now\<rparr>"
    by (cases "step ROWS COLS ALGORITHMS s") (simp_all add: auto_step_def)
  from st P s1 have "P s1" by (rule stableD(9))
  from stableD(5) [OF st this] s' show ?thesis by simp
next
  case False
  with res have "s' = s"
    by (simp add: auto_step_def split: if_splits)
  with P show ?thesis by simp
qed

lemma reachable_stable:
  assumes "reachable rnd ROWS COLS ALGORITHMS g0 s"
    and "stable rnd ROWS COLS ALGORITHMS P"
    and "P (init_app COLS ALGORITHMS g0)"
  shows "P s"
  using assms
proof (induction rule: reachable.induct)
  case reach_init
  then show ?case by simp
next
  case (reach_event st now e st')
  from reach_event.prems(1) reach_event.hyps(2) show ?case
    by (rule handle_event_stable) (rule reach_event.IH [OF reach_event.prems])
next
  case (reach_auto_step st now due st')
  from reach_auto_step.prems(1) reach_auto_step.hyps(2) show ?case
    by (rule auto_step_stable) (rule reach_auto_step.IH [OF reach_auto_step.prems])
qed

text \<open>The paint write changes one cell and nothing else of the grid.\<close>

lemma py_index_nonneg:
  "0 \<le> i \<Longrightarrow> py_index xs i = (if nat i < length xs then Inr (xs ! nat i) else Inl IndexError)"
  by (auto simp: py_index_def)

lemma py_assign_nonneg:
  "0 \<le> i \<Longrightarrow>
   py_assign xs i v = (if nat i < length xs then Inr (xs[nat i := v]) else Inl IndexError)"
  by (auto simp: py_assign_def)

lemma set_wall_frame:
  assumes "set_wall g r c = Inr g'" and "0 \<le> r" and "0 \<le> c"
  shows "start g' = start g" and "target g' = target g"
    and "0 \<le> fst pos \<Longrightarrow> 0 \<le> snd pos \<Longrightarrow> pos \<noteq> (r, c) \<Longrightarrow>
         cell_at g' pos = cell_at g pos"
proof -
  from assms have r: "nat r < length (cells g)" and c: "nat c < length (cells g ! nat r)"
    and g': "g' = g\<lparr>cells := (cells g)[nat r := (cells g ! nat r)[nat c := WALL]]\<rparr>"
    by (auto simp: set_wall_def py_index_nonneg py_assign_nonneg split: if_splits)
  from g' show "start g' = start g" and "target g' = target g" by simp_all
  show "cell_at g' pos = cell_at g pos"
    if "0 \<le> fst pos" and "0 \<le> snd pos" and "pos \<noteq> (r, c)"
  proof -
    obtain a b where pos: "pos = (a, b)" by (cases pos)
    with that have ab: "0 \<le> a" "0 \<le> b" "a \<noteq> r \<or> b \<noteq> c" by auto
    then have "nat a \<noteq> nat r \<or> nat b \<noteq> nat c"
      using assms(2,3) by auto
    with r c ab(1,2) show ?thesis
      by (auto simp: g' pos cell_at_def py_index_nonneg nth_list_update)
  qed
qed

lemma pixel_to_cell_nonneg:
  "pixel_to_cell ROWS COLS p = Some (r, c) \<Longrightarrow> 0 \<le> r \<and> r < ROWS \<and> 0 \<le> c \<and> c < COLS"
  by (auto simp: pixel_to_cell_def Let_def split: if_splits)

lemma demo_paint:
  "mouse_motion 2 2 (60, 65) demo_dragging = Inr demo_painted"
  by (simp add: mouse_motion_def demo_dragging_def demo_painted_def pixel_to_cell_def
      MARGIN_LEFT_def MARGIN_TOP_def CELL_SIZE_def demo_app_fields init_app_fields
      demo_app_def set_wall_def py_index_def py_assign_def demo_grid_def)

lemma demo_dragging_grid: "grid demo_dragging = demo_grid"
  by (simp add: demo_dragging_def demo_app_fields)

lemma demo_grid_start_target: "start demo_grid = (0, 0)" "target demo_grid = (1, 1)"
  by (simp_all add: demo_grid_def)

text \<open>The example run, step by step.\<close>

lemma demo_app_utility_buttons:
  "btn_reset demo_app = new_button 122 168 200 36 ''Reset Grid''"
  "btn_speed_up demo_app = new_button 122 212 98 36 ''Speed +''"
  "btn_speed_dn demo_app = new_button 224 212 98 36 ''Speed -''"
  "btn_step demo_app = new_button 122 256 200 36 ''Step Mode: OFF''"
  "btn_next demo_app = new_button 122 300 200 36 ''Next Step''"
  by (simp_all add: demo_app_def init_app_def build_buttons_def demo_algorithms_def
      GRID_PX_W_def CELL_SIZE_def MARGIN_LEFT_def MARGIN_TOP_def PANEL_WIDTH_def)

lemma demo_app_more_fields:
  "running demo_app = False" "generator demo_app = None" "dynamic_walls demo_app = {}"
  "last_t demo_app = 0" "step_mode demo_app = False" "speed demo_app = 8"
  "rng_pos demo_app = 0" "dragging_wall demo_app = False" "algo_name demo_app = []"
  by (simp_all add: demo_app_def init_app_def build_buttons_def Let_def split: prod.split)

lemma demo_click:
  "handle_event demo_rnd 2 2 demo_algorithms 0 (MOUSEBUTTONDOWN 1 (130, 120)) demo_app =
     Inr demo_started"
proof -
  have lc: "left_click 2 2 (130, 120) demo_app = demo_app"
    by (simp add: left_click_def pixel_to_cell_def MARGIN_LEFT_def MARGIN_TOP_def
        CELL_SIZE_def)
  have st: "start_algorithm demo_algorithms 0 ''DFS'' (reset demo_rnd demo_app) =
              Inr demo_started"
    by (simp add: start_algorithm_def reset_def Let_def demo_app_buttons
        deactivate_all_def new_button_def demo_algorithms_facts demo_started_def
        Grid_reset_def demo_rnd_def demo_app_fields demo_app_more_fields)
  have ca: "click_algo_buttons demo_rnd demo_algorithms 0 1 (130, 120)
              (algo_buttons demo_app) demo_app = Inr demo_started"
    by (simp add: demo_app_buttons is_clicked_def collidepoint_def new_button_def st)
  have cu: "click_utility_buttons demo_rnd 2 2 demo_algorithms 1 (130, 120) demo_started =
              Inr demo_started"
    by (simp add: click_utility_buttons_def Let_def is_clicked_def collidepoint_def
        demo_started_def demo_app_utility_buttons new_button_def)
  show ?thesis
    by (simp add: mouse_button_down_def lc ca cu)
qed

lemma demo_started_fields:
  "generator demo_started = Some demo_found_gen" "running demo_started = True"
  "step_mode demo_started = False" "speed demo_started = 8"
  "grid demo_started = demo_grid\<lparr>cells := [[START, EMPTY], [EMPTY, TARGET]]\<rparr>"
  "replan_count demo_started = 0" "found demo_started = False"
  by (simp_all add: demo_started_def demo_app_more_fields demo_app_fields)

lemma demo_found_snapshot_fields:
  "snap_frontier demo_found_snapshot = {}"
  "snap_explored demo_found_snapshot = {(0, 0), (0, 1)}"
  "snap_path demo_found_snapshot = [(0, 0), (0, 1), (1, 1)]"
  "snap_found demo_found_snapshot = True"
  "snap_failed demo_found_snapshot = False"
  "snap_message demo_found_snapshot = ''Found''"
  by (simp_all add: demo_found_snapshot_def)

lemma demo_fresh_grid_covers:
  "grid_covers 2 2 (demo_grid\<lparr>cells := [[START, EMPTY], [EMPTY, TARGET]]\<rparr>)"
  by (simp add: grid_covers_def)

lemma demo_step_found:
  "step 2 2 demo_algorithms demo_started = Inr (demo_found\<lparr>last_t := 0\<rparr>)"
proof -
  have "step 2 2 demo_algorithms demo_started =
          Inr (finish (take_snapshot demo_found_snapshot
            (demo_started\<lparr>grid := demo_grid\<lparr>cells := [[START, EMPTY], [EMPTY, TARGET]]\<rparr>,
               generator := Some exhausted\<rparr>)))"
    by (rule step_clear_state [where gen = demo_found_gen])
      (simp_all add: demo_started_fields demo_gen_facts demo_found_snapshot_fields
        demo_fresh_grid_covers)
  also have "\<dots> = Inr (demo_found\<lparr>last_t := 0\<rparr>)"
    by (simp add: finish_def take_snapshot_def demo_found_snapshot_fields demo_found_def
        demo_started_def deactivate_all_def new_button_def demo_app_more_fields
        demo_app_fields)
  finally show ?thesis .
qed

lemma demo_auto:
  "auto_step 2 2 demo_algorithms 1 True demo_started = Inr demo_found"
  by (simp add: auto_step_def demo_started_fields demo_step_found)
    (simp add: demo_found_def)

lemma demo_found_fields:
  "found demo_found = True" "running demo_found = False"
  "generator demo_found = Some exhausted" "replan_count demo_found = 0"
  "path demo_found = [(0, 0), (0, 1), (1, 1)]" "dragging_wall demo_found = False"
  "grid demo_found = demo_grid\<lparr>cells := [[START, EMPTY], [EMPTY, TARGET]]\<rparr>"
  "dynamic_walls demo_found = {}"
  by (simp_all add: demo_found_def demo_started_def demo_app_more_fields demo_app_fields)

lemma demo_right_click:
  "handle_event demo_rnd 2 2 demo_algorithms 2 (MOUSEBUTTONDOWN 3 (60, 65)) demo_found =
     Inr demo_found_dragging"
proof -
  have ca: "click_algo_buttons demo_rnd demo_algorithms 2 3 (60, 65) bs s = Inr s" for bs s
    by (induction bs) (auto simp: is_clicked_def)
  have cu: "click_utility_buttons demo_rnd 2 2 demo_algorithms 3 (60, 65) s = Inr s" for s
    by (simp add: click_utility_buttons_def is_clicked_def)
  show ?thesis
    by (simp add: mouse_button_down_def ca cu demo_found_dragging_def)
qed

lemma demo_drag:
  "handle_event demo_rnd 2 2 demo_algorithms 3 (MOUSEMOTION (60, 65)) demo_found_dragging =
     Inr demo_found_walled"
  by (simp add: mouse_motion_def demo_found_dragging_def demo_found_walled_def
      demo_found_fields pixel_to_cell_def MARGIN_LEFT_def MARGIN_TOP_def CELL_SIZE_def
      set_wall_def py_index_def py_assign_def demo_grid_def)

lemma demo_reachable:
  "reachable demo_rnd 2 2 demo_algorithms demo_grid demo_started"
  "reachable demo_rnd 2 2 demo_algorithms demo_grid demo_found"
  "reachable demo_rnd 2 2 demo_algorithms demo_grid demo_found_dragging"
  "reachable demo_rnd 2 2 demo_algorithms demo_grid demo_found_walled"
proof -
  have r0: "reachable demo_rnd 2 2 demo_algorithms demo_grid demo_app"
    unfolding demo_app_def by (rule reach_init)
  from r0 demo_click show r1: "reachable demo_rnd 2 2 demo_algorithms demo_grid demo_started"
    by (rule reach_event)
  from r1 demo_auto show r2: "reachable demo_rnd 2 2 demo_algorithms demo_grid demo_found"
    by (rule reach_auto_step)
  from r2 demo_right_click
  show r3: "reachable demo_rnd 2 2 demo_algorithms demo_grid demo_found_dragging"
    by (rule reach_event)
  from r3 demo_drag
  show "reachable demo_rnd 2 2 demo_algorithms demo_grid demo_found_walled"
    by (rule reach_event)
qed

lemma demo_found_walled_fields:
  "found demo_found_walled = True" "running demo_found_walled = False"
  "generator demo_found_walled = Some exhausted" "replan_count demo_found_walled = 0"
  "path demo_found_walled = [(0, 0), (0, 1), (1, 1)]"
  "cell_at (grid demo_found_walled) (0, 1) = Inr WALL"
  "dynamic_walls demo_found_walled = {}"
  by (simp_all add: demo_found_walled_def demo_found_dragging_def demo_found_fields
      cell_at_def py_index_def)

lemma stable_dynamic_walls:
  "stable rnd ROWS COLS ALGORITHMS (\<lambda>s. dynamic_walls s \<subseteq> D)"
  unfolding stable_def
  by (intro conjI allI impI)
    (simp_all add: left_click_frame reset_frame mouse_motion_frame start_algorithm_frame
      step_dynamic_walls)

lemma stable_found_idle:
  "stable rnd ROWS COLS ALGORITHMS (\<lambda>s. found s \<longrightarrow> \<not> running s)"
  unfolding stable_def
proof (intro conjI allI impI)
  fix s s' assume "found s \<longrightarrow> \<not> running s" "step ROWS COLS ALGORITHMS s = Inr s'" "found s'"
  then show "\<not> running s'" using step_found_idle by blast
qed (simp_all add: left_click_frame reset_frame mouse_motion_frame start_algorithm_frame)

lemma cell_colour_dynamic:
  "cell_colour st pos val = C_DYN_WALL \<longleftrightarrow> val = WALL \<and> pos \<in> dynamic_walls st"
  by (simp add: cell_colour_def C_DYN_WALL_def C_WALL_def C_START_def C_TARGET_def
      C_PATH_def C_FRONTIER_def C_EXPLORED_def C_CELL_EMPTY_def)

text \<open>The wall edits touch nothing but the grid.\<close>

lemma left_click_session:
  "replan_count (left_click ROWS COLS p st) = replan_count st"
  "generator (left_click ROWS COLS p st) = generator st"
  "path (left_click ROWS COLS p st) = path st"
  by (simp_all add: left_click_def split: option.splits prod.splits)

lemma mouse_motion_session:
  assumes "mouse_motion ROWS COLS p st = Inr st'"
  shows "replan_count st' = replan_count st" and "generator st' = generator st"
    and "path st' = path st"
  using assms
  by (auto simp: mouse_motion_def split: if_splits option.splits prod.splits sum.splits)

lemma step_idle: "\<not> running st \<Longrightarrow> step ROWS COLS ALGORITHMS st = Inr st"
  by (simp add: step_def split: option.splits)

lemma auto_step_idle: "\<not> running st \<Longrightarrow> auto_step ROWS COLS ALGORITHMS now due st = Inr st"
  by (simp add: auto_step_def)

lemma reachable_found_idle:
  assumes "reachable rnd ROWS COLS ALGORITHMS g0 s" and "found s"
  shows "\<not> running s"
proof -
  have "found s \<longrightarrow> \<not> running s"
    using assms(1) stable_found_idle
    by (rule reachable_stable) (simp add: init_app_fields)
  with assms(2) show ?thesis by simp
qed

lemma demo_found_dragging_fields:
  "found demo_found_dragging = True" "replan_count demo_found_dragging = 0"
  "generator demo_found_dragging = Some exhausted"
  "path demo_found_dragging = [(0, 0), (0, 1), (1, 1)]"
  by (simp_all add: demo_found_dragging_def demo_found_fields)

lemma demo_drag_motion:
  "mouse_motion 2 2 (60, 65) demo_found_dragging = Inr demo_found_walled"
  using demo_drag by simp

text \<open>The layout of the buttons after \<^verbatim>\<open>__init__\<close>.\<close>

lemma update_fresh: "k \<notin> fst ` set al \<Longrightarrow> AList.update k v al = al @ [(k, v)]"
  by (induction al) auto

lemma build_algo_buttons_rects:
  "distinct ns \<Longrightarrow> set ns \<inter> fst ` set bs = {} \<Longrightarrow>
   map (\<lambda>(n, b). (n, rect b)) (fst (build_algo_buttons px py bw bh gap ns bs)) =
     map (\<lambda>(n, b). (n, rect b)) bs @ algo_rects px py bw bh gap ns \<and>
   snd (build_algo_buttons px py bw bh gap ns bs) = py + (bh + gap) * int (length ns)"
proof (induction ns arbitrary: py bs)
  case Nil
  show ?case by simp
next
  case (Cons n ns)
  from Cons.prems have fresh: "n \<notin> fst ` set bs" and d: "distinct ns"
    and disj: "set ns \<inter> fst ` set (bs @ [(n, new_button px py bw bh n)]) = {}"
    by auto
  from fresh Cons.IH [OF d disj] show ?case
    by (simp add: update_fresh new_button_def algebra_simps)
qed

lemma init_app_button_rects:
  assumes "distinct (map fst ALGORITHMS)"
  shows "button_rects (init_app COLS ALGORITHMS g0) =
    (algo_rects (GRID_PX_W COLS + 30) 70 200 36 8 (map fst ALGORITHMS),
     [(GRID_PX_W COLS + 30, 80 + 44 * int (length ALGORITHMS), 200, 36),
      (GRID_PX_W COLS + 30, 124 + 44 * int (length ALGORITHMS), 98, 36),
      (GRID_PX_W COLS + 132, 124 + 44 * int (length ALGORITHMS), 98, 36),
      (GRID_PX_W COLS + 30, 168 + 44 * int (length ALGORITHMS), 200, 36),
      (GRID_PX_W COLS + 30, 212 + 44 * int (length ALGORITHMS), 200, 36)])"
proof -
  obtain bs py1 where b: "build_algo_buttons (GRID_PX_W COLS + MARGIN_LEFT * 2 + 10)
      (MARGIN_TOP + 10) (PANEL_WIDTH - 20) 36 8 (map fst ALGORITHMS) [] = (bs, py1)"
    by (cases "build_algo_buttons (GRID_PX_W COLS + MARGIN_LEFT * 2 + 10)
      (MARGIN_TOP + 10) (PANEL_WIDTH - 20) 36 8 (map fst ALGORITHMS) []")
  have px: "GRID_PX_W COLS + MARGIN_LEFT * 2 + 10 = GRID_PX_W COLS + 30"
    and py: "MARGIN_TOP + 10 = 70" and bw: "PANEL_WIDTH - 20 = 200"
    by (simp_all add: MARGIN_LEFT_def MARGIN_TOP_def PANEL_WIDTH_def)
  from build_algo_buttons_rects [OF assms, of "[]" "GRID_PX_W COLS + MARGIN_LEFT * 2 + 10"
      "MARGIN_TOP + 10" "PANEL_WIDTH - 20" 36 8]
  have r: "map (\<lambda>(n, b). (n, rect b)) bs =
      algo_rects (GRID_PX_W COLS + 30) 70 200 36 8 (map fst ALGORITHMS)"
    and y: "py1 = 70 + 44 * int (length ALGORITHMS)"
    unfolding px py bw b [unfolded px py bw] by simp_all
  show ?thesis
    unfolding button_rects_def init_app_def build_buttons_def Let_def b prod.case
    by (simp add: r y new_button_def px bw)
qed

text \<open>No operation of the event loop moves a button.\<close>

lemma deactivate_all_rects:
  "map (\<lambda>(n, b). (n, rect b)) (deactivate_all bs) = map (\<lambda>(n, b). (n, rect b)) bs"
  by (induction bs) (auto simp: deactivate_all_def)

lemma update_active_rects:
  "map_of bs name = Some b \<Longrightarrow>
   map (\<lambda>(n, b). (n, rect b)) (AList.update name (b\<lparr>active := a\<rparr>) bs) =
     map (\<lambda>(n, b). (n, rect b)) bs"
  by (induction bs) auto

lemma button_rects_frame:
  "button_rects (s\<lparr>grid := g\<rparr>) = button_rects s"
  "button_rects (s\<lparr>dragging_wall := d\<rparr>) = button_rects s"
  "button_rects (s\<lparr>speed := v\<rparr>) = button_rects s"
  "button_rects (s\<lparr>last_t := t\<rparr>) = button_rects s"
  "button_rects (s\<lparr>step_mode := m, btn_step := (btn_step s)\<lparr>label := l\<rparr>\<rparr>) = button_rects s"
  "button_rects (reset rnd s) = button_rects s"
  "button_rects (finish s) = button_rects s"
  "button_rects (take_snapshot state s) = button_rects s"
  by (simp_all add: button_rects_def reset_def finish_def take_snapshot_def
      deactivate_all_rects)

lemma left_click_button_rects:
  "button_rects (left_click ROWS COLS q s) = button_rects s"
  by (simp add: left_click_def button_rects_frame split: option.splits prod.splits)

lemma mouse_motion_button_rects:
  assumes "mouse_motion ROWS COLS q s = Inr s'"
  shows "button_rects s' = button_rects s"
  using assms
  by (auto simp: mouse_motion_def button_rects_frame
      split: if_splits option.splits prod.splits sum.splits)

lemma start_algorithm_button_rects:
  assumes "start_algorithm ALGORITHMS now name s = Inr s'"
  shows "button_rects s' = button_rects s"
  using assms
  by (auto simp: start_algorithm_def Let_def button_rects_def update_active_rects
      deactivate_all_rects split: option.splits)

lemma replan_button_rects:
  assumes "replan ALGORITHMS s = Inr s'"
  shows "button_rects s' = button_rects s"
  using assms by (auto simp: replan_def Let_def button_rects_def split: option.splits)

lemma scan_path_button_rects:
  assumes "scan_path ALGORITHMS ps s = Inr s'"
  shows "button_rects s' = button_rects s"
  using assms
  by (induction ps) (auto simp: replan_button_rects split: sum.splits if_splits)

lemma check_blocked_button_rects:
  assumes "check_blocked ALGORITHMS s = Inr s'"
  shows "button_rects s' = button_rects s"
  using assms
  by (auto simp: check_blocked_def dest: scan_path_button_rects split: if_splits)

lemma step_button_rects:
  assumes "step ROWS COLS ALGORITHMS st = Inr st'"
  shows "button_rects st' = button_rects st"
proof (cases "generator st = None \<or> \<not> running st")
  case True
  with assms show ?thesis by (auto simp: step_def split: option.splits)
next
  case False
  then obtain gen where gen: "generator st = Some gen" and run: "running st" by auto
  obtain g' r where nxt: "gnext gen (grid st) = (g', r)" by (cases "gnext gen (grid st)")
  show ?thesis
  proof (cases r)
    case None
    with assms gen run nxt show ?thesis by (auto simp: step_def button_rects_def)
  next
    case (Some sg)
    obtain state gen' where sg: "sg = (state, gen')" by (cases sg)
    let ?st1 = "take_snapshot state (st\<lparr>grid := g', generator := Some gen'\<rparr>)"
    from assms gen run nxt Some sg obtain st3 where
      "check_blocked ALGORITHMS ?st1 = Inr st3" and "st' = finish st3"
      by (auto simp: step_def Let_def dest: record_walls_same split: sum.splits)
    then show ?thesis
      using check_blocked_button_rects [of ALGORITHMS ?st1 st3]
      by (simp add: button_rects_frame) (simp add: button_rects_def)
  qed
qed

lemma stable_button_rects:
  "stable rnd ROWS COLS ALGORITHMS (\<lambda>s. button_rects s = X)"
  unfolding stable_def
proof (intro conjI allI impI)
  fix s now name s'
  assume "button_rects s = X" "start_algorithm ALGORITHMS now name (reset rnd s) = Inr s'"
  then show "button_rects s' = X"
    using start_algorithm_button_rects [of ALGORITHMS now name "reset rnd s" s']
    by (simp add: button_rects_frame)
qed (simp_all add: button_rects_frame left_click_button_rects mouse_motion_button_rects
    step_button_rects)

lemma reachable_button_rects:
  assumes "reachable rnd ROWS COLS ALGORITHMS g0 st"
  shows "button_rects st = button_rects (init_app COLS ALGORITHMS g0)"
  using assms stable_button_rects by (rule reachable_stable) simp

text \<open>The column of algorithm buttons: its names, and where its rectangles lie.\<close>

lemma algo_rects_names: "map fst (algo_rects px py bw bh gap ns) = ns"
  by (induction ns arbitrary: py) simp_all

lemma algo_rects_below:
  "(n, r) \<in> set (algo_rects px py bw 36 8 ns) \<Longrightarrow>
   \<exists>y. r = (px, y, bw, 36) \<and> py \<le> y \<and> y + 44 \<le> py + 44 * int (length ns)"
proof (induction ns arbitrary: py)
  case Nil
  then show ?case by simp
next
  case (Cons m ms)
  show ?case
  proof (cases "(n, r) = (m, (px, py, bw, 36))")
    case True
    then show ?thesis by simp
  next
    case False
    with Cons.prems have "(n, r) \<in> set (algo_rects px (py + 44) bw 36 8 ms)" by auto
    from Cons.IH [OF this] obtain y where
      "r = (px, y, bw, 36)" "py + 44 \<le> y" "y + 44 \<le> py + 44 + 44 * int (length ms)"
      by auto
    then show ?thesis by simp
  qed
qed

text \<open>A click in the panel is on no cell.\<close>

lemma pixel_to_cell_panel:
  assumes "GRID_PX_W COLS + 30 \<le> fst p"
  shows "pixel_to_cell ROWS COLS p = None"
proof -
  from assms have "COLS * 46 + 20 \<le> fst p - 10" by (simp add: GRID_PX_W_def CELL_SIZE_def)
  then have "COLS \<le> (fst p - 10) div 46" by arith
  then show ?thesis
    by (simp add: pixel_to_cell_def Let_def MARGIN_LEFT_def CELL_SIZE_def)
qed

text \<open>The loops over the buttons when the click is on none, and on one, of them.\<close>

lemma click_algo_buttons_none:
  "\<forall>(n, b) \<in> set bs. \<not> is_clicked b button p \<Longrightarrow>
   click_algo_buttons rnd ALGORITHMS now button p bs st = Inr st"
  by (induction bs) auto

lemma click_utility_buttons_none:
  assumes "\<not> is_clicked (btn_reset s) button p" and "\<not> is_clicked (btn_speed_up s) button p"
    and "\<not> is_clicked (btn_speed_dn s) button p" and "\<not> is_clicked (btn_step s) button p"
    and "\<not> is_clicked (btn_next s) button p"
  shows "click_utility_buttons rnd ROWS COLS ALGORITHMS button p s = Inr s"
  using assms by (simp add: click_utility_buttons_def Let_def)

lemma click_algo_buttons_one:
  assumes "map (\<lambda>(n, b). (n, rect b)) bs = algo_rects px py bw 36 8 ns"
    and "(name, btn) \<in> set bs" and "is_clicked btn button p"
  shows "click_algo_buttons rnd ALGORITHMS now button p bs st =
           start_algorithm ALGORITHMS now name (reset rnd st)"
  using assms
proof (induction bs arbitrary: py ns)
  case Nil
  then show ?case by simp
next
  case (Cons nb bs)
  obtain n b where nb: "nb = (n, b)" by (cases nb)
  from Cons.prems(1) nb obtain ms where ns: "ns = n # ms" and rb: "rect b = (px, py, bw, 36)"
    and rest: "map (\<lambda>(n, b). (n, rect b)) bs = algo_rects px (py + 44) bw 36 8 ms"
    by (cases ns) auto
  have below: "\<exists>x w h y. rect b' = (x, y, w, h) \<and> py + 44 \<le> y"
    if "(n', b') \<in> set bs" for n' b'
  proof -
    from that have "(n', rect b') \<in> set (map (\<lambda>(n, b). (n, rect b)) bs)" by force
    with rest have "(n', rect b') \<in> set (algo_rects px (py + 44) bw 36 8 ms)" by simp
    from algo_rects_below [OF this] show ?thesis by auto
  qed
  from Cons.prems(3) have cp: "collidepoint (rect btn) p" by (simp add: is_clicked_def)
  show ?case
  proof (cases "(name, btn) = (n, b)")
    case True
    have "\<forall>(n', b') \<in> set bs. \<not> is_clicked b' button p"
    proof (clarify)
      fix n' b' assume "(n', b') \<in> set bs" and c: "is_clicked b' button p"
      from below [OF this(1)] obtain x w h y where "rect b' = (x, y, w, h)" "py + 44 \<le> y"
        by auto
      with c cp True rb show False by (simp add: is_clicked_def collidepoint_def)
    qed
    then have "click_algo_buttons rnd ALGORITHMS now button p bs s = Inr s" for s
      by (rule click_algo_buttons_none)
    with True nb Cons.prems(3) show ?thesis by (simp split: sum.splits)
  next
    case False
    with Cons.prems(2) nb have mem: "(name, btn) \<in> set bs" by auto
    from below [OF mem] obtain x w h y where "rect btn = (x, y, w, h)" "py + 44 \<le> y"
      by auto
    with cp rb have "\<not> is_clicked b button p"
      by (simp add: is_clicked_def collidepoint_def)
    with nb Cons.IH [OF rest mem Cons.prems(3)] show ?thesis by simp
  qed
qed

lemma demo_found_walled_buttons:
  "algo_buttons demo_found_walled =
     [(''BFS'', new_button 122 70 200 36 ''BFS''), (''DFS'', new_button 122 114 200 36 ''DFS'')]"
  "rng_pos demo_found_walled = 1"
  by (simp_all add: demo_found_walled_def demo_found_dragging_def demo_found_def
      demo_started_def)

section \<open>The verified claims\<close>

text \<open>
  Claim C6. \<^verbatim>\<open>step()\<close> does nothing when no generator is active or when
  \<open>running\<close> is false: it returns without raising, and the state after the call,
  every field and the grid, is the state before it.
\<close>

theorem step_noop:
  "generator st = None \<or> \<not> running st \<Longrightarrow> step ROWS COLS ALGORITHMS st = Inr st"
  by (auto simp: step_def split: option.splits)

theorem step_noop_witness: "step 2 2 demo_algorithms demo_app = Inr demo_app"
  using step_noop [of demo_app 2 2 demo_algorithms]
  by (simp add: demo_app_def init_app_fields)

text \<open>
  Claim C3. When \<^verbatim>\<open>step()\<close> calls \<^verbatim>\<open>next\<close> on a generator that raises
  \<^verbatim>\<open>StopIteration\<close> without touching the grid, as a generator that is already
  exhausted does, the call returns without raising and sets \<open>running\<close> to false. Apart
  from \<open>running\<close> and the generator object, which is then exhausted, every field is
  what it was: frontier, explored, path, found, failed, message, algo\_name,
  replan\_count, dynamic\_walls and the grid.
\<close>

theorem step_exhausted:
  assumes "generator st = Some gen" and "running st"
    and "gnext gen (grid st) = (grid st, None)"
  shows "step ROWS COLS ALGORITHMS st =
           Inr (st\<lparr>generator := Some exhausted, running := False\<rparr>)"
  using assms by (simp add: step_def)

theorem step_exhausted_witness:
  "step 2 2 demo_algorithms (demo_app\<lparr>generator := Some exhausted, running := True\<rparr>) =
     Inr (demo_app\<lparr>generator := Some exhausted, running := False\<rparr>)"
  using step_exhausted [of "demo_app\<lparr>generator := Some exhausted, running := True\<rparr>"
      exhausted 2 2 demo_algorithms]
  by (simp add: gnext_exhausted)

text \<open>
  Claim C1. Let \<^verbatim>\<open>step()\<close> pull a snapshot whose path is not empty and whose
  \<open>found\<close> is false, on a grid that covers \<open>ROWS \<times> COLS\<close>, with every position
  of the path inside the matrix and \<open>algo_name\<close> a key of \<^verbatim>\<open>ALGORITHMS\<close>. If some
  position of the path is a wall on the live grid, then the call returns without raising,
  \<open>replan_count\<close> is one more than before (whatever the number of walls on the
  path), \<open>message\<close> is the obstruction notice with the new count in decimal, and the
  generator is the fresh one \<^verbatim>\<open>ALGORITHMS[algo_name](grid)\<close> on the same grid.
\<close>

theorem step_replans_blocked_path:
  assumes "generator st = Some gen" and "running st"
    and "gnext gen (grid st) = (g', Some (state, gen'))"
    and "snap_path state \<noteq> []" and "\<not> snap_found state"
    and "\<exists>pos \<in> set (snap_path state). cell_at g' pos = Inr WALL"
    and "\<forall>pos \<in> set (snap_path state). readable g' pos"
    and "grid_covers ROWS COLS g'"
    and "map_of ALGORITHMS (algo_name st) = Some algo_fn"
  shows "\<exists>st'. step ROWS COLS ALGORITHMS st = Inr st' \<and>
           replan_count st' = replan_count st + 1 \<and>
           message st' = warning_sign @ '' Path blocked! Re-planning'' @ ellipsis
                         @ '' (#'' @ str_int (replan_count st') @ '')'' \<and>
           generator st' = Some (algo_fn (grid st')) \<and>
           grid st' = g' \<and> algo_name st' = algo_name st"
  using step_replan_state [OF assms]
  by (simp add: finish_fields take_snapshot_fields)

theorem step_replans_blocked_path_witness:
  "\<exists>st'. step 2 2 demo_algorithms demo_running = Inr st' \<and>
     replan_count st' = 1 \<and>
     message st' = warning_sign @ '' Path blocked! Re-planning'' @ ellipsis
                   @ '' (#'' @ str_int (replan_count st') @ '')'' \<and>
     generator st' = Some demo_gen \<and> grid st' = demo_grid \<and> algo_name st' = ''BFS''"
  using step_replans_blocked_path [of demo_running demo_gen demo_grid demo_snapshot
      exhausted 2 2 demo_algorithms "\<lambda>g. demo_gen"]
  by (simp add: demo_running_fields demo_gen_facts demo_grid_facts demo_algorithms_facts
      demo_snapshot_def readable_def)

text \<open>
  Claim C2, amended. When a step re-plans (the snapshot pulled has a non-empty path,
  \<open>found\<close> false and a wall on the path), it replaces the generator by the fresh
  \<^verbatim>\<open>ALGORITHMS[algo_name](grid)\<close> and increments \<open>replan_count\<close>; the fields
  \<open>frontier\<close>, \<open>explored\<close> and \<open>path\<close> of the application are not cleared: after
  the call they hold the values of the snapshot just pulled from the discarded generator.
\<close>

theorem step_replan_keeps_snapshot_sets:
  assumes "generator st = Some gen" and "running st"
    and "gnext gen (grid st) = (g', Some (state, gen'))"
    and "snap_path state \<noteq> []" and "\<not> snap_found state"
    and "\<exists>pos \<in> set (snap_path state). cell_at g' pos = Inr WALL"
    and "\<forall>pos \<in> set (snap_path state). readable g' pos"
    and "grid_covers ROWS COLS g'"
    and "map_of ALGORITHMS (algo_name st) = Some algo_fn"
  shows "\<exists>st'. step ROWS COLS ALGORITHMS st = Inr st' \<and>
           replan_count st' = replan_count st + 1 \<and>
           generator st' = Some (algo_fn g') \<and>
           frontier st' = snap_frontier state \<and>
           explored st' = snap_explored state \<and>
           path st' = snap_path state"
  using step_replan_state [OF assms]
  by (simp add: finish_fields take_snapshot_fields)

theorem step_replan_keeps_snapshot_sets_witness:
  "\<exists>st'. step 2 2 demo_algorithms demo_running = Inr st' \<and>
     replan_count st' = 1 \<and> generator st' = Some demo_gen \<and>
     frontier st' = {(0, 1)} \<and> explored st' = {(0, 0)} \<and> path st' = [(0, 0), (1, 0)]"
  using step_replan_keeps_snapshot_sets [of demo_running demo_gen demo_grid demo_snapshot
      exhausted 2 2 demo_algorithms "\<lambda>g. demo_gen"]
  by (simp add: demo_running_fields demo_gen_facts demo_grid_facts demo_algorithms_facts
      demo_snapshot_fields demo_path_readable)

text \<open>
  Against claim C2 as stated: in the example run the step re-plans, and the frontier and
  explored sets of the application after it are those of the discarded generator's
  snapshot, not empty.
\<close>

theorem replan_keeps_snapshot_sets_counterexample:
  "step 2 2 demo_algorithms demo_running = Inr demo_replanned \<and>
   replan_count demo_replanned = replan_count demo_running + 1 \<and>
   frontier demo_replanned = snap_frontier demo_snapshot \<and>
   explored demo_replanned = snap_explored demo_snapshot \<and>
   frontier demo_replanned \<noteq> {} \<and> explored demo_replanned \<noteq> {}"
  by (simp add: demo_step_running demo_replanned_fields demo_running_fields
      demo_snapshot_fields)

text \<open>
  Claim C4, amended. After a step that pulls a snapshot (on a grid that covers
  \<open>ROWS \<times> COLS\<close>, the positions of the path inside the matrix, \<open>algo_name\<close> a
  key of \<^verbatim>\<open>ALGORITHMS\<close>), \<open>running\<close> is false if the snapshot has \<open>found\<close> or
  \<open>failed\<close> set; and after a step that re-plans on a snapshot whose \<open>failed\<close> is
  false, \<open>running\<close> is still true and the generator is the fresh one.
\<close>

theorem step_running_after_snapshot:
  assumes "generator st = Some gen" and "running st"
    and "gnext gen (grid st) = (g', Some (state, gen'))"
    and "\<forall>pos \<in> set (snap_path state). readable g' pos"
    and "grid_covers ROWS COLS g'"
    and "map_of ALGORITHMS (algo_name st) = Some algo_fn"
  shows "\<exists>st'. step ROWS COLS ALGORITHMS st = Inr st' \<and>
           (snap_found state \<or> snap_failed state \<longrightarrow> \<not> running st') \<and>
           (snap_path state \<noteq> [] \<and> \<not> snap_found state \<and> \<not> snap_failed state \<and>
            (\<exists>pos \<in> set (snap_path state). cell_at g' pos = Inr WALL) \<longrightarrow>
              running st' \<and> generator st' = Some (algo_fn g') \<and>
              replan_count st' = replan_count st + 1)"
proof (cases "snap_path state \<noteq> [] \<and> \<not> snap_found state \<and>
    (\<exists>pos \<in> set (snap_path state). cell_at g' pos = Inr WALL)")
  case True
  then show ?thesis
    using step_replan_state [OF assms(1,2,3) _ _ _ assms(4,5,6)] assms(2)
    by (simp add: finish_fields take_snapshot_fields)
next
  case False
  then have "snap_found state \<or> snap_path state = [] \<or>
         ((\<forall>pos \<in> set (snap_path state). readable g' pos) \<and>
          \<not> (\<exists>pos \<in> set (snap_path state). cell_at g' pos = Inr WALL))"
    using assms(4) by blast
  from step_clear_state [OF assms(1,2,3) this assms(5)] False show ?thesis
    by (auto simp: finish_fields take_snapshot_fields)
qed

theorem step_running_after_snapshot_witness:
  "(\<exists>st'. step 2 2 demo_algorithms demo_running = Inr st' \<and>
      running st' \<and> generator st' = Some demo_gen \<and> replan_count st' = 1) \<and>
   (\<exists>st'. step 2 2 demo_algorithms demo_failing = Inr st' \<and> \<not> running st')"
  using step_running_after_snapshot [of demo_running demo_gen demo_grid demo_snapshot
      exhausted 2 2 demo_algorithms "\<lambda>g. demo_gen"]
    step_running_after_snapshot [of demo_failing demo_failed_gen demo_grid
      "demo_snapshot\<lparr>snap_failed := True\<rparr>" exhausted 2 2 demo_algorithms "\<lambda>g. demo_gen"]
  by (simp add: demo_running_fields demo_failing_fields demo_gen_facts demo_grid_facts
      demo_algorithms_facts demo_snapshot_fields demo_path_readable)

text \<open>
  Against claim C4 as stated: in the example run whose snapshot has \<open>failed\<close> set and
  a wall on its path, the step re-plans (the count goes up, the generator is fresh) and
  \<open>running\<close> is false afterwards.
\<close>

theorem replan_while_failed_stops_counterexample:
  "step 2 2 demo_algorithms demo_failing = Inr demo_failed_replanned \<and>
   replan_count demo_failed_replanned = replan_count demo_failing + 1 \<and>
   generator demo_failed_replanned = Some demo_gen \<and>
   running demo_failing \<and> \<not> running demo_failed_replanned"
  by (simp add: demo_step_failing demo_failing_fields demo_failed_replanned_def
      demo_replanned_fields)

text \<open>
  Claim C7. For every state that has a button for \<open>name\<close> and every key \<open>name\<close> of
  \<^verbatim>\<open>ALGORITHMS\<close>, \<^verbatim>\<open>start_algorithm(name)\<close> returns without raising and leaves
  \<open>frontier\<close> and \<open>explored\<close> empty, \<open>path\<close> empty, \<open>found\<close> and \<open>failed\<close>
  false, \<open>dynamic_walls\<close> empty, \<open>replan_count\<close> zero, \<open>algo_name\<close> equal to
  \<open>name\<close>, the generator the fresh \<^verbatim>\<open>ALGORITHMS[name](grid)\<close> on the unchanged live
  grid, and \<open>running\<close> true.
\<close>

theorem start_algorithm_resets:
  assumes "map_of ALGORITHMS name = Some algo_fn"
    and "name \<in> fst ` set (algo_buttons st)"
  shows "\<exists>st'. start_algorithm ALGORITHMS now name st = Inr st' \<and>
           frontier st' = {} \<and> explored st' = {} \<and> path st' = [] \<and>
           \<not> found st' \<and> \<not> failed st' \<and> dynamic_walls st' = {} \<and>
           replan_count st' = 0 \<and> algo_name st' = name \<and>
           generator st' = Some (algo_fn (grid st')) \<and> grid st' = grid st \<and>
           running st'"
proof -
  from assms(2) obtain b where "map_of (algo_buttons st) name = Some b"
    by (metis map_of_eq_None_iff not_None_eq)
  then show ?thesis
    using assms(1) by (simp add: start_algorithm_def Let_def map_of_deactivate_all)
qed

theorem start_algorithm_resets_witness:
  "\<exists>st'. start_algorithm demo_algorithms 0 ''BFS'' demo_app = Inr st' \<and>
     frontier st' = {} \<and> explored st' = {} \<and> path st' = [] \<and>
     \<not> found st' \<and> \<not> failed st' \<and> dynamic_walls st' = {} \<and>
     replan_count st' = 0 \<and> algo_name st' = ''BFS'' \<and>
     generator st' = Some demo_gen \<and> grid st' = demo_grid \<and> running st'"
  using start_algorithm_resets [of demo_algorithms "''BFS''" "\<lambda>g. demo_gen" demo_app 0]
  by (simp add: demo_algorithms_facts demo_app_buttons demo_app_fields)

text \<open>
  Claim C10. The wall edits of the user interface leave the grid alone while a search is
  running: with \<open>running\<close> true the left-click toggle and the drag-paint handler return
  the state unchanged. When the drag-paint handler does write, the start and target
  coordinates stay what they were and the cells at the start and at the target keep their
  state, so neither is ever set to a wall.
\<close>

theorem wall_edits_only_when_idle:
  "(running st \<longrightarrow>
      left_click ROWS COLS p st = st \<and> mouse_motion ROWS COLS p st = Inr st) \<and>
   (mouse_motion ROWS COLS p st = Inr st' \<longrightarrow>
      start (grid st') = start (grid st) \<and> target (grid st') = target (grid st) \<and>
      (0 \<le> fst (start (grid st)) \<and> 0 \<le> snd (start (grid st)) \<longrightarrow>
         cell_at (grid st') (start (grid st)) = cell_at (grid st) (start (grid st))) \<and>
      (0 \<le> fst (target (grid st)) \<and> 0 \<le> snd (target (grid st)) \<longrightarrow>
         cell_at (grid st') (target (grid st)) = cell_at (grid st) (target (grid st))))"
proof (intro conjI impI)
  assume "running st"
  then show "left_click ROWS COLS p st = st"
    by (simp add: left_click_def split: option.splits prod.splits)
  from \<open>running st\<close> show "mouse_motion ROWS COLS p st = Inr st"
    by (simp add: mouse_motion_def split: option.splits prod.splits)
next
  assume mm: "mouse_motion ROWS COLS p st = Inr st'"
  consider "st' = st"
    | r c g where "pixel_to_cell ROWS COLS p = Some (r, c)"
        and "(r, c) \<noteq> start (grid st)" and "(r, c) \<noteq> target (grid st)"
        and "set_wall (grid st) r c = Inr g" and "grid st' = g"
    using mm
    by (auto simp: mouse_motion_def split: if_splits option.splits prod.splits sum.splits)
  note cases = this
  show "start (grid st') = start (grid st)"
    using cases by cases (auto dest: pixel_to_cell_nonneg simp: set_wall_frame)
  show "target (grid st') = target (grid st)"
    using cases by cases (auto dest: pixel_to_cell_nonneg simp: set_wall_frame)
  show "cell_at (grid st') (start (grid st)) = cell_at (grid st) (start (grid st))"
    if "0 \<le> fst (start (grid st)) \<and> 0 \<le> snd (start (grid st))"
    using cases
  proof cases
    case 1
    then show ?thesis by simp
  next
    case (2 r c g)
    from 2(1) have "0 \<le> r" "0 \<le> c" by (auto dest: pixel_to_cell_nonneg)
    from set_wall_frame(3) [OF 2(4) this, of "start (grid st)"] that 2(2,5)
    show ?thesis by auto
  qed
  show "cell_at (grid st') (target (grid st)) = cell_at (grid st) (target (grid st))"
    if "0 \<le> fst (target (grid st)) \<and> 0 \<le> snd (target (grid st))"
    using cases
  proof cases
    case 1
    then show ?thesis by simp
  next
    case (2 r c g)
    from 2(1) have "0 \<le> r" "0 \<le> c" by (auto dest: pixel_to_cell_nonneg)
    from set_wall_frame(3) [OF 2(4) this, of "target (grid st)"] that 2(3,5)
    show ?thesis by auto
  qed
qed

theorem wall_edits_only_when_idle_witness:
  "left_click 2 2 (60, 65) demo_running = demo_running \<and>
   mouse_motion 2 2 (60, 65) demo_running = Inr demo_running \<and>
   mouse_motion 2 2 (60, 65) demo_dragging = Inr demo_painted \<and>
   start (grid demo_painted) = (0, 0) \<and> target (grid demo_painted) = (1, 1) \<and>
   cell_at (grid demo_painted) (0, 0) = Inr START \<and>
   cell_at (grid demo_painted) (1, 1) = Inr TARGET \<and>
   cell_at (grid demo_painted) (0, 1) = Inr WALL"
proof -
  have run: "running demo_running" by (simp add: demo_running_fields)
  note idle = wall_edits_only_when_idle [of demo_running 2 2 "(60, 65)" demo_running,
      THEN conjunct1, THEN mp, OF run]
  note paint = wall_edits_only_when_idle [of demo_dragging 2 2 "(60, 65)" demo_painted,
      THEN conjunct2, THEN mp, OF demo_paint]
  have "cell_at (grid demo_painted) (0, 1) = Inr WALL"
    by (simp add: demo_painted_def cell_at_def py_index_def)
  with idle paint show ?thesis
    by (simp add: demo_paint demo_dragging_grid demo_grid_start_target demo_grid_facts)
qed

text \<open>
  Claim C8. \<open>dynamic_walls\<close> is empty in every state that a run of the application
  reaches, so \<^verbatim>\<open>_draw_grid\<close> never gives a cell the colour of a dynamic wall; and no
  event and no auto-step, from any state, adds an element to it.
\<close>

theorem dynamic_walls_always_empty:
  "(reachable rnd ROWS COLS ALGORITHMS g0 st \<longrightarrow>
      dynamic_walls st = {} \<and> cell_colour st pos val \<noteq> C_DYN_WALL) \<and>
   (handle_event rnd ROWS COLS ALGORITHMS now e s = Inr s' \<longrightarrow>
      dynamic_walls s' \<subseteq> dynamic_walls s) \<and>
   (auto_step ROWS COLS ALGORITHMS now due s = Inr s' \<longrightarrow>
      dynamic_walls s' \<subseteq> dynamic_walls s)"
proof (intro conjI impI)
  assume r: "reachable rnd ROWS COLS ALGORITHMS g0 st"
  have "dynamic_walls st \<subseteq> {}"
    using r stable_dynamic_walls
    by (rule reachable_stable) (simp add: init_app_fields)
  then show "dynamic_walls st = {}" by simp
  then show "cell_colour st pos val \<noteq> C_DYN_WALL"
    by (simp add: cell_colour_dynamic)
next
  assume "handle_event rnd ROWS COLS ALGORITHMS now e s = Inr s'"
  with stable_dynamic_walls show "dynamic_walls s' \<subseteq> dynamic_walls s"
    by (rule handle_event_stable) simp
next
  assume "auto_step ROWS COLS ALGORITHMS now due s = Inr s'"
  with stable_dynamic_walls show "dynamic_walls s' \<subseteq> dynamic_walls s"
    by (rule auto_step_stable) simp
qed

theorem dynamic_walls_always_empty_witness:
  "dynamic_walls demo_found_walled = {} \<and>
   cell_colour demo_found_walled (0, 1) WALL = C_WALL \<and>
   cell_colour demo_found_walled (0, 1) WALL \<noteq> C_DYN_WALL \<and>
   dynamic_walls demo_started \<subseteq> dynamic_walls demo_app \<and>
   dynamic_walls demo_found \<subseteq> dynamic_walls demo_started"
proof -
  note thm1 = dynamic_walls_always_empty [of demo_rnd 2 2 demo_algorithms demo_grid
      demo_found_walled "(0, 1)" WALL 0 "MOUSEBUTTONDOWN 1 (130, 120)" demo_app demo_started
      True]
  note thm2 = dynamic_walls_always_empty [of demo_rnd 2 2 demo_algorithms demo_grid
      demo_found_walled "(0, 1)" WALL 1 "MOUSEBUTTONDOWN 1 (130, 120)" demo_started
      demo_found True]
  note a = thm1 [THEN conjunct1, THEN mp, OF demo_reachable(4)]
  note b = thm1 [THEN conjunct2, THEN conjunct1, THEN mp, OF demo_click]
  note c = thm2 [THEN conjunct2, THEN conjunct2, THEN mp, OF demo_auto]
  have "cell_colour demo_found_walled (0, 1) WALL = C_WALL"
    by (simp add: cell_colour_def demo_found_walled_fields)
  with a b c show ?thesis by simp
qed

text \<open>
  Claim C5. A step whose snapshot has \<open>found\<close> set never re-plans: it returns with
  \<open>replan_count\<close> unchanged and the generator that \<^verbatim>\<open>next\<close> left, not a fresh one,
  and it stops the run. In every reachable state with \<open>found\<close> true the run is stopped,
  so the check for a blocked path does nothing and \<^verbatim>\<open>step()\<close> and the auto-step are
  no-ops; and a wall that the user then places, by a left click or by drag-painting,
  leaves \<open>found\<close>, \<open>replan_count\<close>, the generator and the path as they were, and the
  next \<^verbatim>\<open>step()\<close> is again a no-op.
\<close>

theorem found_path_never_replanned:
  "(generator st = Some gen \<and> running st \<and>
    gnext gen (grid st) = (g', Some (state, gen')) \<and> snap_found state \<and>
    grid_covers ROWS COLS g' \<longrightarrow>
      (\<exists>st'. step ROWS COLS ALGORITHMS st = Inr st' \<and> found st' \<and> \<not> running st' \<and>
         replan_count st' = replan_count st \<and> generator st' = Some gen')) \<and>
   (reachable rnd ROWS COLS ALGORITHMS g0 s \<and> found s \<longrightarrow>
      \<not> running s \<and> check_blocked ALGORITHMS s = Inr s \<and>
      step ROWS COLS ALGORITHMS s = Inr s \<and>
      auto_step ROWS COLS ALGORITHMS now due s = Inr s \<and>
      found (left_click ROWS COLS q s) \<and>
      replan_count (left_click ROWS COLS q s) = replan_count s \<and>
      generator (left_click ROWS COLS q s) = generator s \<and>
      path (left_click ROWS COLS q s) = path s \<and>
      step ROWS COLS ALGORITHMS (left_click ROWS COLS q s) = Inr (left_click ROWS COLS q s)) \<and>
   (reachable rnd ROWS COLS ALGORITHMS g0 s \<and> found s \<and>
    mouse_motion ROWS COLS q s = Inr s' \<longrightarrow>
      found s' \<and> replan_count s' = replan_count s \<and> generator s' = generator s \<and>
      path s' = path s \<and> step ROWS COLS ALGORITHMS s' = Inr s')"
proof (intro conjI impI)
  assume a: "generator st = Some gen \<and> running st \<and>
    gnext gen (grid st) = (g', Some (state, gen')) \<and> snap_found state \<and>
    grid_covers ROWS COLS g'"
  then have "step ROWS COLS ALGORITHMS st =
      Inr (finish (take_snapshot state (st\<lparr>grid := g', generator := Some gen'\<rparr>)))"
    by (intro step_clear_state [where gen = gen]) simp_all
  with a show "\<exists>st'. step ROWS COLS ALGORITHMS st = Inr st' \<and> found st' \<and> \<not> running st' \<and>
         replan_count st' = replan_count st \<and> generator st' = Some gen'"
    by (simp add: finish_fields take_snapshot_fields)
next
  assume "reachable rnd ROWS COLS ALGORITHMS g0 s \<and> found s"
  then have f: "found s" and idle: "\<not> running s"
    by (auto dest: reachable_found_idle)
  from idle show "\<not> running s" .
  from f show "check_blocked ALGORITHMS s = Inr s" by (rule check_blocked_found)
  from idle show "step ROWS COLS ALGORITHMS s = Inr s" by (rule step_idle)
  from idle show "auto_step ROWS COLS ALGORITHMS now due s = Inr s" by (rule auto_step_idle)
  from f show "found (left_click ROWS COLS q s)" by (simp add: left_click_frame)
  show "replan_count (left_click ROWS COLS q s) = replan_count s"
    and "generator (left_click ROWS COLS q s) = generator s"
    and "path (left_click ROWS COLS q s) = path s"
    by (simp_all add: left_click_session)
  from idle show "step ROWS COLS ALGORITHMS (left_click ROWS COLS q s) =
      Inr (left_click ROWS COLS q s)"
    by (intro step_idle) (simp add: left_click_frame)
next
  assume a: "reachable rnd ROWS COLS ALGORITHMS g0 s \<and> found s \<and>
    mouse_motion ROWS COLS q s = Inr s'"
  then have f: "found s" and idle: "\<not> running s"
    and mm: "mouse_motion ROWS COLS q s = Inr s'"
    by (auto dest: reachable_found_idle)
  from f mm show "found s'" by (simp add: mouse_motion_frame)
  from mm show "replan_count s' = replan_count s" and "generator s' = generator s"
    and "path s' = path s"
    by (simp_all add: mouse_motion_session)
  from idle mm show "step ROWS COLS ALGORITHMS s' = Inr s'"
    by (intro step_idle) (simp add: mouse_motion_frame)
qed

theorem found_path_never_replanned_witness:
  "(\<exists>st'. step 2 2 demo_algorithms demo_started = Inr st' \<and> found st' \<and> \<not> running st' \<and>
      replan_count st' = 0 \<and> generator st' = Some exhausted) \<and>
   cell_at (grid demo_found_walled) (0, 1) = Inr WALL \<and>
   path demo_found_walled = [(0, 0), (0, 1), (1, 1)] \<and>
   found demo_found_walled \<and> \<not> running demo_found_walled \<and>
   replan_count demo_found_walled = 0 \<and> generator demo_found_walled = Some exhausted \<and>
   check_blocked demo_algorithms demo_found_walled = Inr demo_found_walled \<and>
   step 2 2 demo_algorithms demo_found_walled = Inr demo_found_walled \<and>
   auto_step 2 2 demo_algorithms 5 True demo_found_walled = Inr demo_found_walled \<and>
   step 2 2 demo_algorithms (left_click 2 2 (15, 111) demo_found_walled) =
     Inr (left_click 2 2 (15, 111) demo_found_walled)"
proof -
  note thm1 = found_path_never_replanned [of demo_started demo_found_gen
      "demo_grid\<lparr>cells := [[START, EMPTY], [EMPTY, TARGET]]\<rparr>" demo_found_snapshot exhausted
      2 2 demo_algorithms demo_rnd demo_grid demo_found_walled 5 True "(15, 111)"
      demo_found_walled]
  note thm2 = found_path_never_replanned [of demo_started demo_found_gen
      "demo_grid\<lparr>cells := [[START, EMPTY], [EMPTY, TARGET]]\<rparr>" demo_found_snapshot exhausted
      2 2 demo_algorithms demo_rnd demo_grid demo_found_dragging 5 True "(60, 65)"
      demo_found_walled]
  have h1: "generator demo_started = Some demo_found_gen \<and> running demo_started \<and>
      gnext demo_found_gen (grid demo_started) =
        (demo_grid\<lparr>cells := [[START, EMPTY], [EMPTY, TARGET]]\<rparr>,
         Some (demo_found_snapshot, exhausted)) \<and>
      snap_found demo_found_snapshot \<and>
      grid_covers 2 2 (demo_grid\<lparr>cells := [[START, EMPTY], [EMPTY, TARGET]]\<rparr>)"
    by (simp add: demo_started_fields demo_gen_facts demo_found_snapshot_fields
        demo_fresh_grid_covers)
  have h2: "reachable demo_rnd 2 2 demo_algorithms demo_grid demo_found_walled \<and>
      found demo_found_walled"
    by (simp add: demo_reachable demo_found_walled_fields)
  have h3: "reachable demo_rnd 2 2 demo_algorithms demo_grid demo_found_dragging \<and>
      found demo_found_dragging \<and>
      mouse_motion 2 2 (60, 65) demo_found_dragging = Inr demo_found_walled"
    by (simp add: demo_reachable demo_found_dragging_fields demo_drag_motion)
  note a = thm1 [THEN conjunct1, THEN mp, OF h1]
  note b = thm1 [THEN conjunct2, THEN conjunct1, THEN mp, OF h2]
  note c = thm2 [THEN conjunct2, THEN conjunct2, THEN mp, OF h3]
  from a b c show ?thesis
    by (simp add: demo_started_fields demo_found_walled_fields demo_found_dragging_fields)
qed

text \<open>
  Claim C9. \<^verbatim>\<open>ALGORITHMS\<close> is a dictionary, so its keys are distinct. In every
  state that a run reaches, a click on the button of an algorithm is handled as
  \<^verbatim>\<open>reset()\<close> followed by \<^verbatim>\<open>start_algorithm(name)\<close> and nothing else: the
  click toggles no cell and is on no other button. The call returns, and the run it
  starts searches the grid that \<^verbatim>\<open>reset()\<close> regenerated: the cells are the layout
  freshly drawn, whatever walls the user had placed, the start and the target are kept,
  the generator is built on that grid, and the session fields are cleared.
\<close>

theorem algorithm_click_resets_then_starts:
  assumes r: "reachable rnd ROWS COLS ALGORITHMS g0 st"
    and d: "distinct (map fst ALGORITHMS)"
    and mem: "(name, btn) \<in> set (algo_buttons st)"
    and clicked: "is_clicked btn button p"
  shows "handle_event rnd ROWS COLS ALGORITHMS now (MOUSEBUTTONDOWN button p) st =
           start_algorithm ALGORITHMS now name (reset rnd st) \<and>
         (\<exists>st' algo_fn.
            start_algorithm ALGORITHMS now name (reset rnd st) = Inr st' \<and>
            map_of ALGORITHMS name = Some algo_fn \<and>
            grid st' = Grid_reset (rnd (rng_pos st)) (grid st) \<and>
            cells (grid st') = rnd (rng_pos st) \<and>
            start (grid st') = start (grid st) \<and> target (grid st') = target (grid st) \<and>
            generator st' = Some (algo_fn (grid st')) \<and> running st' \<and>
            algo_name st' = name \<and> frontier st' = {} \<and> explored st' = {} \<and>
            path st' = [] \<and> \<not> found st' \<and> \<not> failed st' \<and> replan_count st' = 0 \<and>
            dynamic_walls st' = {})"
proof -
  let ?px = "GRID_PX_W COLS + 30" and ?n = "int (length ALGORITHMS)"
  have "button_rects st = button_rects (init_app COLS ALGORITHMS g0)"
    using r by (rule reachable_button_rects)
  then have lay: "button_rects st =
    (algo_rects ?px 70 200 36 8 (map fst ALGORITHMS),
     [(?px, 80 + 44 * ?n, 200, 36), (?px, 124 + 44 * ?n, 98, 36),
      (GRID_PX_W COLS + 132, 124 + 44 * ?n, 98, 36), (?px, 168 + 44 * ?n, 200, 36),
      (?px, 212 + 44 * ?n, 200, 36)])"
    by (simp only: init_app_button_rects [OF d])
  then have ar: "map (\<lambda>(n, b). (n, rect b)) (algo_buttons st) =
      algo_rects ?px 70 200 36 8 (map fst ALGORITHMS)"
    by (simp add: button_rects_def)
  from mem have "(name, rect btn) \<in> set (map (\<lambda>(n, b). (n, rect b)) (algo_buttons st))"
    by force
  with ar have in_rects: "(name, rect btn) \<in> set (algo_rects ?px 70 200 36 8 (map fst ALGORITHMS))"
    by simp
  from algo_rects_below [OF this] obtain y where rb: "rect btn = (?px, y, 200, 36)"
    and y2: "y + 44 \<le> 70 + 44 * ?n"
    by auto
  from clicked rb have b1: "button = 1" and px: "?px \<le> fst p" and py: "snd p < y + 36"
    by (simp_all add: is_clicked_def collidepoint_def)
  from px have lc: "left_click ROWS COLS p st = st"
    by (simp add: left_click_def pixel_to_cell_panel)
  have ca: "click_algo_buttons rnd ALGORITHMS now button p (algo_buttons st) st =
      start_algorithm ALGORITHMS now name (reset rnd st)"
    using ar mem clicked by (rule click_algo_buttons_one)
  from in_rects have "name \<in> set (map fst (algo_rects ?px 70 200 36 8 (map fst ALGORITHMS)))"
    by force
  then have "name \<in> fst ` set ALGORITHMS"
    by (simp add: algo_rects_names)
  then obtain algo_fn where af: "map_of ALGORITHMS name = Some algo_fn"
    by (cases "map_of ALGORITHMS name") (simp_all add: map_of_eq_None_iff)
  from mem have "name \<in> fst ` set (algo_buttons st)" by force
  then obtain b0 where b0: "map_of (algo_buttons st) name = Some b0"
    by (cases "map_of (algo_buttons st) name") (simp_all add: map_of_eq_None_iff)
  have started: "\<exists>st'.
      start_algorithm ALGORITHMS now name (reset rnd st) = Inr st' \<and>
      grid st' = Grid_reset (rnd (rng_pos st)) (grid st) \<and>
      cells (grid st') = rnd (rng_pos st) \<and>
      start (grid st') = start (grid st) \<and> target (grid st') = target (grid st) \<and>
      generator st' = Some (algo_fn (grid st')) \<and> running st' \<and>
      algo_name st' = name \<and> frontier st' = {} \<and> explored st' = {} \<and>
      path st' = [] \<and> \<not> found st' \<and> \<not> failed st' \<and> replan_count st' = 0 \<and>
      dynamic_walls st' = {}"
    by (simp add: start_algorithm_def Let_def reset_def map_of_deactivate_all af b0
        Grid_reset_def)
  then obtain st' where st': "start_algorithm ALGORITHMS now name (reset rnd st) = Inr st'"
    by blast
  from st' have "button_rects st' = button_rects st"
    by (simp add: start_algorithm_button_rects button_rects_frame)
  with lay have ur: "rect (btn_reset st') = (?px, 80 + 44 * ?n, 200, 36)"
    "rect (btn_speed_up st') = (?px, 124 + 44 * ?n, 98, 36)"
    "rect (btn_speed_dn st') = (GRID_PX_W COLS + 132, 124 + 44 * ?n, 98, 36)"
    "rect (btn_step st') = (?px, 168 + 44 * ?n, 200, 36)"
    "rect (btn_next st') = (?px, 212 + 44 * ?n, 200, 36)"
    by (simp_all add: button_rects_def)
  from py y2 have low: "snd p < 80 + 44 * ?n" by simp
  have cu: "click_utility_buttons rnd ROWS COLS ALGORITHMS button p st' = Inr st'"
    using low by (intro click_utility_buttons_none) (simp_all add: is_clicked_def
        collidepoint_def ur)
  have "handle_event rnd ROWS COLS ALGORITHMS now (MOUSEBUTTONDOWN button p) st =
          start_algorithm ALGORITHMS now name (reset rnd st)"
    by (simp add: mouse_button_down_def Let_def b1 lc) (simp add: ca [unfolded b1] st' cu [unfolded b1])
  with started af show ?thesis by simp
qed

theorem algorithm_click_resets_then_starts_witness:
  "cell_at (grid demo_found_walled) (0, 1) = Inr WALL \<and>
   handle_event demo_rnd 2 2 demo_algorithms 9 (MOUSEBUTTONDOWN 1 (130, 120))
     demo_found_walled =
       start_algorithm demo_algorithms 9 ''DFS'' (reset demo_rnd demo_found_walled) \<and>
   (\<exists>st'. handle_event demo_rnd 2 2 demo_algorithms 9 (MOUSEBUTTONDOWN 1 (130, 120))
            demo_found_walled = Inr st' \<and>
      cells (grid st') = [[START, EMPTY], [EMPTY, TARGET]] \<and>
      cell_at (grid st') (0, 1) = Inr EMPTY \<and>
      generator st' = Some demo_found_gen \<and> running st' \<and> algo_name st' = ''DFS'' \<and>
      path st' = [] \<and> \<not> found st')"
proof -
  have m: "(''DFS'', new_button 122 114 200 36 ''DFS'') \<in> set (algo_buttons demo_found_walled)"
    by (simp add: demo_found_walled_buttons)
  have d: "distinct (map fst demo_algorithms)"
    by (simp add: demo_algorithms_def)
  have c: "is_clicked (new_button 122 114 200 36 ''DFS'') 1 (130, 120)"
    by (simp add: is_clicked_def collidepoint_def new_button_def)
  note inst = algorithm_click_resets_then_starts [where now = 9, OF demo_reachable(4) d m c]
  from inst [THEN conjunct2] obtain st' algo_fn where
    s: "start_algorithm demo_algorithms 9 ''DFS'' (reset demo_rnd demo_found_walled) = Inr st'"
    and af: "map_of demo_algorithms ''DFS'' = Some algo_fn"
    and cs: "cells (grid st') = demo_rnd (rng_pos demo_found_walled)"
    and g: "generator st' = Some (algo_fn (grid st'))"
    and rest: "running st'" "algo_name st' = ''DFS''" "path st' = []" "\<not> found st'"
    by blast
  from af have "algo_fn = (\<lambda>g. demo_found_gen)"
    by (simp add: demo_algorithms_def)
  with g have g': "generator st' = Some demo_found_gen" by simp
  from cs have cs': "cells (grid st') = [[START, EMPTY], [EMPTY, TARGET]]"
    by (simp add: demo_rnd_def)
  then have "cell_at (grid st') (0, 1) = Inr EMPTY"
    by (simp add: cell_at_def py_index_def)
  with inst [THEN conjunct1] s cs' g' rest show ?thesis
    by (simp add: demo_found_walled_fields)
qed

end
